theory Spec2Isabelle
  imports Main "HOL-Library.Word" "HOL-Library.Char_ord" "HOL-Library.List_Lexorder"
begin

section \<open>glosm: PreloadedXmlDatasource.cc\<close>

text \<open>
  A shallow embedding of \<^verbatim>\<open>src/libglosm-server/src/PreloadedXmlDatasource.cc\<close>: the
  coordinate codec \<^verbatim>\<open>ParseCoord\<close>, the attribute parsers \<^verbatim>\<open>ParseTag\<close>,
  \<^verbatim>\<open>ParseBounds\<close> and \<^verbatim>\<open>ParseBound\<close>, the two expat handlers \<^verbatim>\<open>StartElement\<close>
  and \<^verbatim>\<open>EndElement\<close>, and \<^verbatim>\<open>Load\<close>, \<^verbatim>\<open>Clear\<close> and the lookups.

  Conventions.
  \<^item> A C string is a \<open>string\<close> without its terminating NUL (and with no NUL inside, as
    expat delivers them).
  \<^item> expat's attribute array \<^verbatim>\<open>name0, value0, name1, value1, ..., NULL\<close> is a list of
    (name, value) pairs.
  \<^item> A \<^verbatim>\<open>std::map\<close> is an association list sorted by key with unique keys, so that
    iteration order is the list order.
  \<^item> The members \<^verbatim>\<open>nodes_\<close>, \<^verbatim>\<open>ways_\<close>, \<^verbatim>\<open>relations_\<close>, \<^verbatim>\<open>bbox_\<close>,
    \<^verbatim>\<open>tag_level_\<close>, \<^verbatim>\<open>last_node_\<close>, \<^verbatim>\<open>last_way_\<close> and \<^verbatim>\<open>last_relation_\<close> lose
    their trailing underscore.
  \<^item> C \<^verbatim>\<open>int\<close> is 32 bits and \<^verbatim>\<open>long\<close> is 64 bits (LP64).
\<close>

subsection \<open>Exceptions and outcomes\<close>

datatype exn =
    Exception string
  | ParsingException string
  | DataException string
  | SystemError string

text \<open>
  The outcome of a member function that works on the object: it returns, leaving the
  object in the given state; or it throws, leaving the object as it was at the
  \<^verbatim>\<open>throw\<close>; or the C++ has undefined behaviour that no value can stand for (a read
  of an uninitialised local, \<^verbatim>\<open>front()\<close> of an empty vector, a null or dangling
  dereference).
\<close>

datatype 'a outcome = Returns 'a | Throws exn 'a | Undefined

subsection \<open>StrEq\<close>

definition c_at :: "string \<Rightarrow> nat \<Rightarrow> char" where
  "c_at s i = (if i < length s then s ! i else CHR 0x00)"

text \<open>
  \<^verbatim>\<open>StrEq<I>(one, two)\<close>. The first argument is the build: \<open>True\<close> when
  \<^verbatim>\<open>TRUSTED_XML\<close> is defined (compare a prefix only), \<open>False\<close> for the default build,
  where every instance is \<^verbatim>\<open>strcmp(one, two) == 0\<close>.
\<close>

definition StrEq :: "bool \<Rightarrow> int \<Rightarrow> string \<Rightarrow> string \<Rightarrow> bool" where
  "StrEq trusted I one two =
    (if \<not> trusted then one = two
     else if I = 0 then True
     else if I = 1 then c_at one 0 = c_at two 0
     else if I = 2 then
       c_at one 0 = c_at two 0 \<and> c_at one 0 \<noteq> CHR 0x00 \<and> c_at one 1 = c_at two 1
     else if I < 0 then one = two
     else take (nat I) one = take (nat I) two)"

subsection \<open>ParseCoord\<close>

definition is_digit :: "char \<Rightarrow> bool" where
  "is_digit c = (48 \<le> (of_char c :: int) \<and> (of_char c :: int) \<le> 57)"

definition digit_val :: "char \<Rightarrow> int" where
  "digit_val c = of_char c - 48"

text \<open>
  The scanning loop of \<^verbatim>\<open>ParseCoord\<close> with its locals \<^verbatim>\<open>value\<close>, \<^verbatim>\<open>fracdig\<close> and
  \<^verbatim>\<open>haddot\<close>; \<open>Inr\<close> is the state at loop exit (end of string or \<^verbatim>\<open>break\<close>).
\<close>

fun coord_loop :: "string \<Rightarrow> int \<Rightarrow> nat \<Rightarrow> nat \<Rightarrow> exn + (int \<times> nat \<times> nat)" where
  "coord_loop [] val fracdig haddot = Inr (val, fracdig, haddot)"
| "coord_loop (c # cur) val fracdig haddot =
    (if is_digit c then
       (let val' = val * 10 + digit_val c in
        if haddot = 0 \<and> val' > 180 then
          Inl (ParsingException ''bad coordinate format (value too large)'')
        else if haddot \<noteq> 0 then
          (if fracdig + 1 = 7 then Inr (val', fracdig + 1, haddot)
           else coord_loop cur val' (fracdig + 1) haddot)
        else coord_loop cur val' fracdig haddot)
     else if c = CHR ''.'' then coord_loop cur val fracdig (haddot + 1)
     else Inl (ParsingException ''bad coordinate format (unexpected symbol)''))"

definition ParseCoord :: "string \<Rightarrow> exn + int" where
  "ParseCoord str =
    (let (neg, cur) = (case str of c # r \<Rightarrow> if c = CHR ''-'' then (True, r) else (False, str)
                                 | [] \<Rightarrow> (False, str)) in
     case coord_loop cur 0 0 0 of
       Inl e \<Rightarrow> Inl e
     | Inr (val, fracdig, haddot) \<Rightarrow>
         if haddot > 1 then Inl (ParsingException ''bad coordinate format (multiple dots)'')
         else (let v = val * 10 ^ (7 - fracdig) in Inr (if neg then - v else v)))"

text \<open>The value of a run of decimal digits read left to right, starting from \<open>v\<close>.\<close>

definition dec_value :: "int \<Rightarrow> string \<Rightarrow> int" where
  "dec_value v ds = foldl (\<lambda>a c. a * 10 + digit_val c) v ds"


subsection \<open>strtol and the conversion to int\<close>

definition isspace :: "char \<Rightarrow> bool" where
  "isspace c = (c = CHR '' '' \<or> (9 \<le> (of_char c :: int) \<and> (of_char c :: int) \<le> 13))"

definition LONG_MAX :: int where "LONG_MAX = 2 ^ 63 - 1"
definition LONG_MIN :: int where "LONG_MIN = - (2 ^ 63)"

text \<open>
  \<^verbatim>\<open>strtol(nptr, NULL, 10)\<close> of the C library: white space, an optional sign, the
  longest run of digits (none gives 0), clamped to the range of \<^verbatim>\<open>long\<close>.
\<close>

definition strtol :: "string \<Rightarrow> int" where
  "strtol nptr =
    (let s = dropWhile isspace nptr;
         (neg, t) = (case s of
                       c # r \<Rightarrow> if c = CHR ''-'' then (True, r)
                                else if c = CHR ''+'' then (False, r) else (False, s)
                     | [] \<Rightarrow> (False, s));
         acc = dec_value 0 (takeWhile is_digit t)
     in if neg then max (- acc) LONG_MIN else min acc LONG_MAX)"

text \<open>
  The initialisation \<^verbatim>\<open>int id = strtol(...)\<close>: a \<^verbatim>\<open>long\<close> converted to \<^verbatim>\<open>int\<close>
  keeps its low 32 bits, read as two's complement.
\<close>

definition int_of_long :: "int \<Rightarrow> int" where
  "int_of_long v = sint (word_of_int v :: 32 word)"

subsection \<open>Decimal output\<close>

text \<open>What \<^verbatim>\<open><<\<close> writes for an integer, used in the exception messages.\<close>

function show_nat :: "nat \<Rightarrow> string" where
  "show_nat n = (if n < 10 then [char_of (48 + n)]
                 else show_nat (n div 10) @ [char_of (48 + n mod 10)])"
  by pat_completeness auto
termination
  by (relation "measure (\<lambda>n. n)") auto

declare show_nat.simps [simp del]

definition show_int :: "int \<Rightarrow> string" where
  "show_int i = (if i < 0 then CHR ''-'' # show_nat (nat (- i)) else show_nat (nat i))"

subsection \<open>std::map\<close>

text \<open>
  Modelled from the spec: the typedefs \<^verbatim>\<open>NodesMap\<close>, \<^verbatim>\<open>WaysMap\<close>, \<^verbatim>\<open>RelationsMap\<close> and
  \<^verbatim>\<open>TagsMap\<close> are in a header that is not among the sources. The spec has "maps from
  integer identifier to Node/Way/Relation records" and a "string-keyed tag mapping";
  the source takes a pair of iterator and flag from \<^verbatim>\<open>insert\<close>, as a \<^verbatim>\<open>std::map\<close> gives.
  They are \<^verbatim>\<open>std::map\<close>s.

  \<^verbatim>\<open>std::map::insert\<close>: the pair goes to its place in key order, unless the key is
  already present, in which case the map is left as it is.
\<close>

fun map_insert :: "'k::linorder \<Rightarrow> 'v \<Rightarrow> ('k \<times> 'v) list \<Rightarrow> ('k \<times> 'v) list" where
  "map_insert k v [] = [(k, v)]"
| "map_insert k v ((a, b) # m) =
    (if k < a then (k, v) # (a, b) # m
     else if k = a then (a, b) # m
     else (a, b) # map_insert k v m)"

text \<open>An assignment through an iterator to the entry with key \<open>k\<close>.\<close>

definition map_modify :: "'k \<Rightarrow> ('v \<Rightarrow> 'v) \<Rightarrow> ('k \<times> 'v) list \<Rightarrow> ('k \<times> 'v) list" where
  "map_modify k f m = map (\<lambda>(a, b). if a = k then (a, f b) else (a, b)) m"

subsection \<open>The data model\<close>

text \<open>
  Modelled from the spec: \<^verbatim>\<open>osmid_t\<close>, \<^verbatim>\<open>Vector2i\<close> and the classes \<^verbatim>\<open>Node\<close>, \<^verbatim>\<open>Way\<close>,
  \<^verbatim>\<open>Relation\<close> and \<^verbatim>\<open>Relation::Member\<close> are declared in headers that are not among the
  sources; the records below have the members that the source reads and writes.
  "Identifiers (\<^verbatim>\<open>osmid_t\<close>) are 64-bit signed integers": an \<open>osmid_t\<close> is the integer
  it holds, and every id that the handlers store has passed through a C \<^verbatim>\<open>int\<close>. A
  position is the pair \<open>(x, y)\<close> of two C \<^verbatim>\<open>int\<close>s.
\<close>

type_synonym osmid_t = int
type_synonym Vector2i = "int \<times> int"
type_synonym atts = "(string \<times> string) list"
type_synonym TagsMap = "(string \<times> string) list"

definition INT_MAX :: int where "INT_MAX = 2 ^ 31 - 1"
definition INT_MIN :: int where "INT_MIN = - (2 ^ 31)"

record BBoxi =
  left :: int
  bottom :: int
  right :: int
  top :: int

text \<open>
  Modelled from the spec: \<^verbatim>\<open>BBoxi::Empty\<close>, \<^verbatim>\<open>IsEmpty\<close> and \<^verbatim>\<open>Include\<close> are declared in a
  header that is not among the sources. The spec: "a rectangle in fixed-point
  coordinate space with an explicit empty sentinel state distinguishable from a
  degenerate zero-area box; supports inclusion of a point (expanding to cover it)".
  The sentinel is the inverted box of the extreme \<^verbatim>\<open>int\<close> values, a box is empty when
  inverted on either axis, and inclusion widens each side that the point lies beyond.
\<close>

definition Empty :: BBoxi where
  "Empty = \<lparr>left = INT_MAX, bottom = INT_MAX, right = INT_MIN, top = INT_MIN\<rparr>"

definition IsEmpty :: "BBoxi \<Rightarrow> bool" where
  "IsEmpty b = (left b > right b \<or> bottom b > top b)"

definition Include :: "BBoxi \<Rightarrow> Vector2i \<Rightarrow> BBoxi" where
  "Include b p =
    (let b1 = (if fst p < left b then b\<lparr>left := fst p\<rparr> else b);
         b2 = (if fst p > right b1 then b1\<lparr>right := fst p\<rparr> else b1);
         b3 = (if snd p < bottom b2 then b2\<lparr>bottom := snd p\<rparr> else b2)
     in if snd p > top b3 then b3\<lparr>top := snd p\<rparr> else b3)"

text \<open>\<^verbatim>\<open>Node(lon, lat)\<close> stores the position \<open>(x, y) = (lon, lat)\<close>.\<close>

record Node =
  Pos :: Vector2i

record Way =
  Nodes :: "osmid_t list"
  Tags :: TagsMap
  Closed :: bool
  Clockwise :: bool
  BBox :: BBoxi

datatype Type_t = Member_NODE | Member_WAY | Member_RELATION

record Member =
  Type :: Type_t
  Ref :: osmid_t
  Role :: string

record Relation =
  Members :: "Member list"

text \<open>
  Modelled from the spec: the default constructors \<^verbatim>\<open>Way()\<close> and \<^verbatim>\<open>Relation()\<close> are in
  a header that is not among the sources. A new way has no nodes and no tags, is
  neither closed nor clockwise ("closed/clockwise remain false") and has the empty
  box; a new relation has no members.
\<close>

definition new_Way :: Way where
  "new_Way = \<lparr>Nodes = [], Tags = [], Closed = False, Clockwise = False, BBox = Empty\<rparr>"

definition new_Relation :: Relation where
  "new_Relation = \<lparr>Members = []\<rparr>"

datatype container = NONE | NODE | WAY | RELATION

text \<open>
  The object. The iterators \<^verbatim>\<open>last_node_\<close>, \<^verbatim>\<open>last_way_\<close> and \<^verbatim>\<open>last_relation_\<close> are
  the key of the entry they point to (\<open>None\<close> before the first assignment).
\<close>

record datasource =
  nodes :: "(osmid_t \<times> Node) list"
  ways :: "(osmid_t \<times> Way) list"
  relations :: "(osmid_t \<times> Relation) list"
  bbox :: BBoxi
  InsideWhich :: container
  tag_level :: int
  last_node :: "osmid_t option"
  last_way :: "osmid_t option"
  last_relation :: "osmid_t option"

text \<open>The object after the constructor; the fields it leaves uninitialised are set to
  the values \<^verbatim>\<open>Load\<close> gives them.\<close>

definition new_datasource :: datasource where
  "new_datasource =
    \<lparr>nodes = [], ways = [], relations = [], bbox = Empty, InsideWhich = NONE, tag_level = 0,
     last_node = None, last_way = None, last_relation = None\<rparr>"

subsection \<open>ParseTag, ParseBounds, ParseBound\<close>

fun tag_loop :: "bool \<Rightarrow> atts \<Rightarrow> string \<times> string \<Rightarrow> string \<times> string" where
  "tag_loop trusted [] kv = kv"
| "tag_loop trusted ((n, v) # att) (key, val) =
    (if StrEq trusted 1 n ''k'' then tag_loop trusted att (v, val)
     else if StrEq trusted 1 n ''v'' then tag_loop trusted att (key, v)
     else tag_loop trusted att (key, val))"

definition ParseTag :: "bool \<Rightarrow> TagsMap \<Rightarrow> atts \<Rightarrow> TagsMap" where
  "ParseTag trusted m att =
    (let (key, val) = tag_loop trusted att ([], []) in map_insert key val m)"

fun bounds_loop :: "bool \<Rightarrow> atts \<Rightarrow> BBoxi \<Rightarrow> exn + BBoxi" where
  "bounds_loop trusted [] b = Inr b"
| "bounds_loop trusted ((n, v) # att) b =
    (if StrEq trusted (- 1) n ''minlat'' then
       (case ParseCoord v of Inl e \<Rightarrow> Inl e | Inr c \<Rightarrow> bounds_loop trusted att (b\<lparr>bottom := c\<rparr>))
     else if StrEq trusted (- 1) n ''maxlat'' then
       (case ParseCoord v of Inl e \<Rightarrow> Inl e | Inr c \<Rightarrow> bounds_loop trusted att (b\<lparr>top := c\<rparr>))
     else if StrEq trusted (- 1) n ''minlon'' then
       (case ParseCoord v of Inl e \<Rightarrow> Inl e | Inr c \<Rightarrow> bounds_loop trusted att (b\<lparr>left := c\<rparr>))
     else if StrEq trusted (- 1) n ''maxlon'' then
       (case ParseCoord v of Inl e \<Rightarrow> Inl e | Inr c \<Rightarrow> bounds_loop trusted att (b\<lparr>right := c\<rparr>))
     else bounds_loop trusted att b)"

definition ParseBounds :: "bool \<Rightarrow> atts \<Rightarrow> exn + BBoxi" where
  "ParseBounds trusted att =
    (case bounds_loop trusted att Empty of
       Inl e \<Rightarrow> Inl e
     | Inr b \<Rightarrow> if IsEmpty b then Inl (ParsingException ''incorrect bounding box'') else Inr b)"

text \<open>\<^verbatim>\<open>s.find(',')\<close> with the two substrings around the comma found.\<close>

definition find_comma :: "string \<Rightarrow> (string \<times> string) option" where
  "find_comma s =
    (if CHR '','' \<in> set s
     then Some (takeWhile (\<lambda>c. c \<noteq> CHR '','') s, tl (dropWhile (\<lambda>c. c \<noteq> CHR '','') s))
     else None)"

definition parse_box :: "string \<Rightarrow> BBoxi \<Rightarrow> exn + BBoxi" where
  "parse_box s b =
    (case find_comma s of
       None \<Rightarrow> Inl (ParsingException ''bad bbox format'')
     | Some (p1, r1) \<Rightarrow>
    (case find_comma r1 of
       None \<Rightarrow> Inl (ParsingException ''bad bbox format'')
     | Some (p2, r2) \<Rightarrow>
    (case find_comma r2 of
       None \<Rightarrow> Inl (ParsingException ''bad bbox format'')
     | Some (p3, p4) \<Rightarrow>
    (case ParseCoord p1 of Inl e \<Rightarrow> Inl e | Inr c1 \<Rightarrow>
    (case ParseCoord p2 of Inl e \<Rightarrow> Inl e | Inr c2 \<Rightarrow>
    (case ParseCoord p3 of Inl e \<Rightarrow> Inl e | Inr c3 \<Rightarrow>
    (case ParseCoord p4 of Inl e \<Rightarrow> Inl e | Inr c4 \<Rightarrow>
       Inr (b\<lparr>bottom := c1, left := c2, top := c3, right := c4\<rparr>))))))))"

fun bound_loop :: "bool \<Rightarrow> atts \<Rightarrow> BBoxi \<Rightarrow> exn + BBoxi" where
  "bound_loop trusted [] b = Inr b"
| "bound_loop trusted ((n, v) # att) b =
    (if StrEq trusted (- 1) n ''box'' then
       (case parse_box v b of Inl e \<Rightarrow> Inl e | Inr b' \<Rightarrow> bound_loop trusted att b')
     else bound_loop trusted att b)"

definition ParseBound :: "bool \<Rightarrow> atts \<Rightarrow> exn + BBoxi" where
  "ParseBound trusted att = bound_loop trusted att Empty"

subsection \<open>StartElement\<close>

text \<open>The attribute loop at depth 1, with the locals \<^verbatim>\<open>id\<close> (here \<open>id'\<close>), \<^verbatim>\<open>lat\<close> and \<^verbatim>\<open>lon\<close>.\<close>

fun top_loop :: "bool \<Rightarrow> atts \<Rightarrow> int \<times> int \<times> int \<Rightarrow> exn + (int \<times> int \<times> int)" where
  "top_loop trusted [] l = Inr l"
| "top_loop trusted ((n, v) # att) (id', lat, lon) =
    (if StrEq trusted 1 n ''id'' then top_loop trusted att (int_of_long (strtol v), lat, lon)
     else if StrEq trusted 2 n ''lat'' then
       (case ParseCoord v of Inl e \<Rightarrow> Inl e | Inr c \<Rightarrow> top_loop trusted att (id', c, lon))
     else if StrEq trusted 2 n ''lon'' then
       (case ParseCoord v of Inl e \<Rightarrow> Inl e | Inr c \<Rightarrow> top_loop trusted att (id', lat, c))
     else top_loop trusted att (id', lat, lon))"

text \<open>
  The attribute loop of \<^verbatim>\<open>member\<close>, with the locals \<^verbatim>\<open>ref\<close>, \<^verbatim>\<open>role\<close> and \<^verbatim>\<open>type\<close>,
  which the source declares without an initial value: \<open>None\<close> is "never assigned".
\<close>

fun member_loop ::
  "bool \<Rightarrow> atts \<Rightarrow> int option \<times> string option \<times> Type_t option \<Rightarrow>
   exn + (int option \<times> string option \<times> Type_t option)" where
  "member_loop trusted [] l = Inr l"
| "member_loop trusted ((n, v) # att) (ref, role, type) =
    (if StrEq trusted 2 n ''ref'' then
       member_loop trusted att (Some (int_of_long (strtol v)), role, type)
     else if StrEq trusted 1 n ''type'' then
       (if StrEq trusted 1 v ''node'' then member_loop trusted att (ref, role, Some Member_NODE)
        else if StrEq trusted 1 v ''way'' then member_loop trusted att (ref, role, Some Member_WAY)
        else if StrEq trusted 1 v ''relation'' then
          member_loop trusted att (ref, role, Some Member_RELATION)
        else Inl (ParsingException ''bad relation member role''))
     else if StrEq trusted 2 n ''role'' then member_loop trusted att (ref, Some v, type)
     else Inl (ParsingException ''unexpected attribute in relation member''))"

definition StartElement :: "bool \<Rightarrow> string \<Rightarrow> atts \<Rightarrow> datasource \<Rightarrow> datasource outcome" where
  "StartElement trusted name att st =
    (if tag_level st = 1 \<and> InsideWhich st = NONE then
       (case top_loop trusted att (0, 0, 0) of
          Inl e \<Rightarrow> Throws e st
        | Inr (id', lat, lon) \<Rightarrow>
            if StrEq trusted 1 name ''node'' then
              Returns (st\<lparr>InsideWhich := NODE,
                          nodes := map_insert id' \<lparr>Pos = (lon, lat)\<rparr> (nodes st),
                          last_node := Some id',
                          tag_level := tag_level st + 1\<rparr>)
            else if StrEq trusted 1 name ''way'' then
              Returns (st\<lparr>InsideWhich := WAY,
                          ways := map_insert id' new_Way (ways st),
                          last_way := Some id',
                          tag_level := tag_level st + 1\<rparr>)
            else if StrEq trusted 1 name ''relation'' then
              Returns (st\<lparr>InsideWhich := RELATION,
                          relations := map_insert id' new_Relation (relations st),
                          last_relation := Some id',
                          tag_level := tag_level st + 1\<rparr>)
            else if StrEq trusted (- 1) name ''bounds'' then
              (case ParseBounds trusted att of
                 Inl e \<Rightarrow> Throws e st
               | Inr b \<Rightarrow> Returns (st\<lparr>bbox := b, tag_level := tag_level st + 1\<rparr>))
            else if StrEq trusted (- 1) name ''bound'' then
              (case ParseBound trusted att of
                 Inl e \<Rightarrow> Throws e st
               | Inr b \<Rightarrow> Returns (st\<lparr>bbox := b, tag_level := tag_level st + 1\<rparr>))
            else Returns (st\<lparr>tag_level := tag_level st + 1\<rparr>))
     else if tag_level st = 2 \<and> InsideWhich st = NODE then
       (if StrEq trusted 0 name ''tag'' then Returns (st\<lparr>tag_level := tag_level st + 1\<rparr>)
        else Throws (ParsingException ''unexpected tag in node'') st)
     else if tag_level st = 2 \<and> InsideWhich st = WAY then
       (if StrEq trusted 1 name ''tag'' then
          (case last_way st of
             None \<Rightarrow> Undefined
           | Some w \<Rightarrow>
               if map_of (ways st) w = None then Undefined
               else Returns (st\<lparr>ways := map_modify w
                                  (\<lambda>way. way\<lparr>Tags := ParseTag trusted (Tags way) att\<rparr>) (ways st),
                                tag_level := tag_level st + 1\<rparr>))
        else if StrEq trusted 1 name ''nd'' then
          (case att of
             [] \<Rightarrow> Undefined
           | (n, v) # _ \<Rightarrow>
               if n \<noteq> [] \<and> StrEq trusted 0 n ''ref'' then
                 (case last_way st of
                    None \<Rightarrow> Undefined
                  | Some w \<Rightarrow>
                      if map_of (ways st) w = None then Undefined
                      else Returns (st\<lparr>ways := map_modify w
                              (\<lambda>way. way\<lparr>Nodes := Nodes way @ [int_of_long (strtol v)]\<rparr>) (ways st),
                            tag_level := tag_level st + 1\<rparr>))
               else Throws (ParsingException ''no ref attribute for nd tag'') st)
        else Throws (ParsingException ''unexpected tag in way'') st)
     else if tag_level st = 2 \<and> InsideWhich st = RELATION then
       (if StrEq trusted 1 name ''tag'' then Returns (st\<lparr>tag_level := tag_level st + 1\<rparr>)
        else if StrEq trusted 1 name ''member'' then
          (case member_loop trusted att (None, None, None) of
             Inl e \<Rightarrow> Throws e st
           | Inr (Some ref, Some role, Some type) \<Rightarrow>
               (case last_relation st of
                  None \<Rightarrow> Undefined
                | Some r \<Rightarrow>
                    if map_of (relations st) r = None then Undefined
                    else Returns (st\<lparr>relations := map_modify r
                            (\<lambda>rel. rel\<lparr>Members := Members rel @
                                       [\<lparr>Type = type, Ref = ref, Role = role\<rparr>]\<rparr>) (relations st),
                          tag_level := tag_level st + 1\<rparr>))
           | Inr _ \<Rightarrow> Undefined)
        else Throws (ParsingException ''unexpected tag in relation'') st)
     else if tag_level st \<ge> 2 then Throws (ParsingException ''unexpected tag'') st
     else Returns (st\<lparr>tag_level := tag_level st + 1\<rparr>))"

subsection \<open>EndElement\<close>

definition not_found :: "osmid_t \<Rightarrow> osmid_t \<Rightarrow> exn" where
  "not_found i w = ParsingException
     (''node '' @ show_int i @ '' referenced by way '' @ show_int w @
      '' was not found in this dump'')"

text \<open>
  Modelled from the spec: \<^verbatim>\<open>osmlong_t\<close> is declared in a header that is not among the
  sources; it is taken as a signed 64-bit integer ("an accumulator at least double the
  coordinate's native width"). \<open>osmlong v\<close> is the value that 64-bit two's-complement arithmetic holds for
  the exact result \<open>v\<close>: signed overflow wraps around, as the machine addition does.
\<close>

definition osmlong :: "int \<Rightarrow> int" where
  "osmlong v = sint (word_of_int v :: 64 word)"

text \<open>
  The loop of the closed branch over the way's node ids, with the locals \<^verbatim>\<open>prev\<close>
  (\<open>None\<close> in the first iteration, where the source does not read it), \<^verbatim>\<open>area\<close> and
  the way's box.
\<close>

fun closed_loop ::
  "(osmid_t \<times> Node) list \<Rightarrow> osmid_t \<Rightarrow> osmid_t list \<Rightarrow> Node option \<Rightarrow> int \<Rightarrow> BBoxi \<Rightarrow>
   (int \<times> BBoxi) outcome" where
  "closed_loop nds w [] prev area b = Returns (area, b)"
| "closed_loop nds w (i # is) prev area b =
    (case map_of nds i of
       None \<Rightarrow> Throws (not_found i w) (area, b)
     | Some cur \<Rightarrow>
        (case prev of
           None \<Rightarrow> closed_loop nds w is (Some cur) area (Include b (Pos cur))
         | Some p \<Rightarrow>
             closed_loop nds w is (Some cur)
               (osmlong (area + (fst (Pos p) * snd (Pos cur) - fst (Pos cur) * snd (Pos p))))
               (Include b (Pos cur))))"

fun open_loop ::
  "(osmid_t \<times> Node) list \<Rightarrow> osmid_t \<Rightarrow> osmid_t list \<Rightarrow> BBoxi \<Rightarrow> BBoxi outcome" where
  "open_loop nds w [] b = Returns b"
| "open_loop nds w (i # is) b =
    (case map_of nds i of
       None \<Rightarrow> Throws (not_found i w) b
     | Some cur \<Rightarrow> open_loop nds w is (Include b (Pos cur)))"

text \<open>The \<^verbatim>\<open>case WAY\<close> of \<^verbatim>\<open>EndElement\<close>, on the entry \<open>(w, way)\<close> that \<^verbatim>\<open>last_way_\<close>
  points to.\<close>

definition end_way :: "(osmid_t \<times> Node) list \<Rightarrow> osmid_t \<Rightarrow> Way \<Rightarrow> Way outcome" where
  "end_way nds w way =
    (if Nodes way = [] then Undefined
     else if hd (Nodes way) = last (Nodes way) then
       (case closed_loop nds w (Nodes way) None 0 (BBox way) of
          Returns (area, b) \<Rightarrow> Returns (way\<lparr>Closed := True, BBox := b, Clockwise := area < 0\<rparr>)
        | Throws e (area, b) \<Rightarrow> Throws e (way\<lparr>Closed := True, BBox := b\<rparr>)
        | Undefined \<Rightarrow> Undefined)
     else
       (case open_loop nds w (Nodes way) (BBox way) of
          Returns b \<Rightarrow> Returns (way\<lparr>BBox := b\<rparr>)
        | Throws e b \<Rightarrow> Throws e (way\<lparr>BBox := b\<rparr>)
        | Undefined \<Rightarrow> Undefined))"

definition EndElement :: "datasource \<Rightarrow> datasource outcome" where
  "EndElement st =
    (if tag_level st = 2 then
       (if InsideWhich st = WAY then
          (case last_way st of
             None \<Rightarrow> Undefined
           | Some w \<Rightarrow>
              (case map_of (ways st) w of
                 None \<Rightarrow> Undefined
               | Some way \<Rightarrow>
                  (case end_way (nodes st) w way of
                     Returns way' \<Rightarrow>
                       Returns (st\<lparr>ways := map_modify w (\<lambda>_. way') (ways st),
                                   InsideWhich := NONE, tag_level := tag_level st - 1\<rparr>)
                   | Throws e way' \<Rightarrow>
                       Throws e (st\<lparr>ways := map_modify w (\<lambda>_. way') (ways st)\<rparr>)
                   | Undefined \<Rightarrow> Undefined)))
        else Returns (st\<lparr>InsideWhich := NONE, tag_level := tag_level st - 1\<rparr>))
     else Returns (st\<lparr>tag_level := tag_level st - 1\<rparr>))"

subsection \<open>Load, Clear and the lookups\<close>

datatype xml_event = StartTag string atts | EndTag string

text \<open>
  How the input ends: the zero-length read, a failed \<^verbatim>\<open>read\<close>, or an error that expat
  reports, with its message and the line and column it gives.
\<close>

datatype ending = EndOfInput | ReadError | XmlError string nat nat

text \<open>
  What \<^verbatim>\<open>Load\<close> meets outside the object: whether the file opens (always, for
  \<^verbatim>\<open>"-"\<close>), whether expat creates a parser, and the calls expat then makes to the two
  handlers, each with the line and column expat reports during it.
\<close>

record source =
  opens :: bool
  parser_created :: bool
  events :: "(xml_event \<times> nat \<times> nat) list"
  ending :: ending

text \<open>The handler \<^verbatim>\<open>catch (ParsingException &e)\<close> of \<^verbatim>\<open>Load\<close>; anything else is
  thrown on as it is.\<close>

definition verbose :: "exn \<Rightarrow> nat \<Rightarrow> nat \<Rightarrow> exn" where
  "verbose e line col =
    (case e of
       ParsingException m \<Rightarrow>
         ParsingException (''input parsing error: '' @ m @ '' at line '' @ show_nat line @
                           '' pos '' @ show_nat col)
     | _ \<Rightarrow> e)"

fun parse_events ::
  "bool \<Rightarrow> (xml_event \<times> nat \<times> nat) list \<Rightarrow> ending \<Rightarrow> datasource \<Rightarrow> datasource outcome" where
  "parse_events trusted [] fin st =
    (case fin of
       EndOfInput \<Rightarrow> Returns st
     | ReadError \<Rightarrow> Throws (SystemError ''input read error'') st
     | XmlError m line col \<Rightarrow> Throws (verbose (ParsingException m) line col) st)"
| "parse_events trusted ((ev, line, col) # evs) fin st =
    (case (case ev of StartTag name att \<Rightarrow> StartElement trusted name att st
                    | EndTag name \<Rightarrow> EndElement st) of
       Returns st' \<Rightarrow> parse_events trusted evs fin st'
     | Throws e st' \<Rightarrow> Throws (verbose e line col) st'
     | Undefined \<Rightarrow> Undefined)"

text \<open>The postprocessing at the end of \<^verbatim>\<open>Load\<close>.\<close>

definition postprocess :: "datasource \<Rightarrow> datasource" where
  "postprocess st =
    (if IsEmpty (bbox st)
     then st\<lparr>bbox := foldl Include (bbox st) (map (\<lambda>(i, n). Pos n) (nodes st))\<rparr>
     else st)"

definition Load :: "bool \<Rightarrow> source \<Rightarrow> datasource \<Rightarrow> datasource outcome" where
  "Load trusted src st =
    (let st0 = st\<lparr>bbox := Empty\<rparr> in
     if \<not> opens src then Throws (SystemError ''cannot open input file'') st0
     else if \<not> parser_created src then Throws (Exception ''cannot create XML parser'') st0
     else
       (case parse_events trusted (events src) (ending src)
               (st0\<lparr>InsideWhich := NONE, tag_level := 0\<rparr>) of
          Returns st1 \<Rightarrow> Returns (postprocess st1)
        | Throws e st1 \<Rightarrow> Throws e st1
        | Undefined \<Rightarrow> Undefined))"

definition Clear :: "datasource \<Rightarrow> datasource" where
  "Clear st = st\<lparr>nodes := [], ways := [], relations := []\<rparr>"

definition GetBBox :: "datasource \<Rightarrow> BBoxi" where
  "GetBBox st = bbox st"

definition GetNode :: "datasource \<Rightarrow> osmid_t \<Rightarrow> exn + Node" where
  "GetNode st i =
    (case map_of (nodes st) i of
       None \<Rightarrow> Inl (DataException ''node not found'')
     | Some n \<Rightarrow> Inr n)"

definition GetWay :: "datasource \<Rightarrow> osmid_t \<Rightarrow> exn + Way" where
  "GetWay st i =
    (case map_of (ways st) i of
       None \<Rightarrow> Inl (DataException ''way not found'')
     | Some w \<Rightarrow> Inr w)"

definition GetRelation :: "datasource \<Rightarrow> osmid_t \<Rightarrow> exn + Relation" where
  "GetRelation st i =
    (case map_of (relations st) i of
       None \<Rightarrow> Inl (DataException ''relation not found'')
     | Some r \<Rightarrow> Inr r)"


subsection \<open>Notions used to state the claims\<close>

text \<open>The shoelace sum \<open>\<Sum> (x\<^sub>i * y\<^sub>i\<^sub>+\<^sub>1 - x\<^sub>i\<^sub>+\<^sub>1 * y\<^sub>i)\<close> over consecutive positions.\<close>

fun shoelace :: "Vector2i list \<Rightarrow> int" where
  "shoelace (p # q # ps) = (fst p * snd q - fst q * snd p) + shoelace (q # ps)"
| "shoelace ps = 0"

text \<open>The exception an outcome carries, if any.\<close>

fun thrown :: "'a outcome \<Rightarrow> exn option" where
  "thrown (Throws e s) = Some e"
| "thrown r = None"

text \<open>The key and the value that \<^verbatim>\<open>ParseTag\<close> reads from an attribute list.\<close>

definition tag_key :: "bool \<Rightarrow> atts \<Rightarrow> string" where
  "tag_key trusted att = fst (tag_loop trusted att ([], []))"

definition tag_value :: "bool \<Rightarrow> atts \<Rightarrow> string" where
  "tag_value trusted att = snd (tag_loop trusted att ([], []))"

text \<open>The two handler calls that expat makes for an element without children.\<close>

definition element :: "string \<Rightarrow> atts \<Rightarrow> nat \<times> nat \<Rightarrow> (xml_event \<times> nat \<times> nat) list" where
  "element name att pos = [(StartTag name att, pos), (EndTag name, pos)]"

text \<open>The member type that the \<^verbatim>\<open>type\<close> values \<^verbatim>\<open>node\<close>, \<^verbatim>\<open>way\<close> and \<^verbatim>\<open>relation\<close> stand for.\<close>

definition member_type :: "string \<Rightarrow> Type_t" where
  "member_type v =
    (if v = ''node'' then Member_NODE else if v = ''way'' then Member_WAY else Member_RELATION)"

text \<open>The handlers are at depth 1, outside any node, way or relation.\<close>

abbreviation at_top :: "datasource \<Rightarrow> bool" where
  "at_top st \<equiv> tag_level st = 1 \<and> InsideWhich st = NONE"

text \<open>The handlers are at depth 2 inside the way with key \<open>w\<close>, stored as \<open>way\<close>.\<close>

abbreviation in_way :: "datasource \<Rightarrow> osmid_t \<Rightarrow> Way \<Rightarrow> bool" where
  "in_way st w way \<equiv>
     tag_level st = 2 \<and> InsideWhich st = WAY \<and> last_way st = Some w \<and>
     map_of (ways st) w = Some way"

text \<open>The handlers are at depth 2 inside the relation with key \<open>r\<close>, stored as \<open>rel\<close>.\<close>

abbreviation in_relation :: "datasource \<Rightarrow> osmid_t \<Rightarrow> Relation \<Rightarrow> bool" where
  "in_relation st r rel \<equiv>
     tag_level st = 2 \<and> InsideWhich st = RELATION \<and> last_relation st = Some r \<and>
     map_of (relations st) r = Some rel"

text \<open>The closed and clockwise flags of way \<open>w\<close> in the state an outcome returns.\<close>

definition way_flags :: "datasource outcome \<Rightarrow> osmid_t \<Rightarrow> (bool \<times> bool) option" where
  "way_flags r w =
    (case r of
       Returns st \<Rightarrow> (case map_of (ways st) w of
                        Some way \<Rightarrow> Some (Closed way, Clockwise way)
                      | None \<Rightarrow> None)
     | _ \<Rightarrow> None)"

text \<open>
  An example state: the four corners of a square are stored, and the handlers are
  inside way 7, whose node ids so far are \<open>ids\<close>, about to process its end tag.
\<close>

definition square_state :: "osmid_t list \<Rightarrow> datasource" where
  "square_state ids =
     new_datasource\<lparr>nodes := [(1, \<lparr>Pos = (0, 0)\<rparr>), (2, \<lparr>Pos = (10, 0)\<rparr>),
                              (3, \<lparr>Pos = (10, 10)\<rparr>), (4, \<lparr>Pos = (0, 10)\<rparr>)],
                    ways := [(7, new_Way\<lparr>Nodes := ids\<rparr>)],
                    InsideWhich := WAY, tag_level := 2, last_way := Some 7\<rparr>"

text \<open>The state an outcome returns, if it returns.\<close>

fun returned :: "'a outcome \<Rightarrow> 'a option" where
  "returned (Returns s) = Some s"
| "returned r = None"

text \<open>An example state: the handlers are inside relation 9, which has no members yet.\<close>

definition relation_state :: datasource where
  "relation_state =
     new_datasource\<lparr>relations := [(9, new_Relation)],
                    InsideWhich := RELATION, tag_level := 2, last_relation := Some 9\<rparr>"

text \<open>An example input: a dump with one node and nothing else.\<close>

definition one_node :: "string \<Rightarrow> source" where
  "one_node ident =
     \<lparr>opens = True, parser_created = True,
      events = [(StartTag ''osm'' [], 1, 0),
                (StartTag ''node'' [(''id'', ident), (''lat'', ''1.5''), (''lon'', ''-2'')], 2, 2),
                (EndTag ''node'', 2, 2),
                (EndTag ''osm'', 3, 0)],
      ending = EndOfInput\<rparr>"

text \<open>An example input: a dump with two nodes and no \<^verbatim>\<open>bounds\<close> element.\<close>

definition two_nodes :: source where
  "two_nodes =
     \<lparr>opens = True, parser_created = True,
      events = [(StartTag ''osm'' [], 1, 0),
                (StartTag ''node'' [(''id'', ''1''), (''lat'', ''1.5''), (''lon'', ''-2'')], 2, 2),
                (EndTag ''node'', 2, 2),
                (StartTag ''node'' [(''id'', ''2''), (''lat'', ''-0.5''), (''lon'', ''3'')], 3, 2),
                (EndTag ''node'', 3, 2),
                (EndTag ''osm'', 4, 0)],
      ending = EndOfInput\<rparr>"

section \<open>Lemmas\<close>

subsection \<open>Lemmas on ParseCoord\<close>

text \<open>The value of a digit run, and how the scanning loop moves through digits and dots.\<close>

lemma dec_value_Nil [simp]: "dec_value v [] = v"
  by (simp add: dec_value_def)

lemma dec_value_Cons [simp]: "dec_value v (c # ds) = dec_value (v * 10 + digit_val c) ds"
  by (simp add: dec_value_def)

lemma dec_value_append: "dec_value v (ds @ es) = dec_value (dec_value v ds) es"
  by (simp add: dec_value_def)

lemma digit_val_nonneg: "is_digit c \<Longrightarrow> 0 \<le> digit_val c"
  by (simp add: is_digit_def digit_val_def)

lemma dec_value_mono: "list_all is_digit ds \<Longrightarrow> 0 \<le> v \<Longrightarrow> v \<le> dec_value v ds"
proof (induction ds arbitrary: v)
  case Nil then show ?case by simp
next
  case (Cons c ds)
  have d: "0 \<le> digit_val c" using Cons.prems(1) by (simp add: digit_val_nonneg)
  have "v * 10 + digit_val c \<le> dec_value (v * 10 + digit_val c) ds"
    using Cons.IH [of "v * 10 + digit_val c"] Cons.prems d by simp
  then show ?case using d Cons.prems(2) by simp
qed

lemma coord_loop_too_large:
  "list_all is_digit ds \<Longrightarrow> v \<le> 180 \<Longrightarrow> 180 < dec_value v ds \<Longrightarrow>
   coord_loop (ds @ rest) v fracdig 0 =
     Inl (ParsingException ''bad coordinate format (value too large)'')"
proof (induction ds arbitrary: v)
  case Nil then show ?case by simp
next
  case (Cons c ds)
  show ?case
  proof (cases "180 < v * 10 + digit_val c")
    case True
    then show ?thesis using Cons.prems(1) by simp
  next
    case False
    then have "coord_loop (ds @ rest) (v * 10 + digit_val c) fracdig 0 =
        Inl (ParsingException ''bad coordinate format (value too large)'')"
      using Cons.IH [of "v * 10 + digit_val c"] Cons.prems by simp
    then show ?thesis using False Cons.prems(1) by simp
  qed
qed

lemma coord_loop_int_part:
  "list_all is_digit ds \<Longrightarrow> 0 \<le> v \<Longrightarrow> dec_value v ds \<le> 180 \<Longrightarrow>
   coord_loop (ds @ rest) v fracdig 0 = coord_loop rest (dec_value v ds) fracdig 0"
proof (induction ds arbitrary: v)
  case Nil then show ?case by simp
next
  case (Cons c ds)
  let ?v = "v * 10 + digit_val c"
  have d: "0 \<le> digit_val c" using Cons.prems(1) by (simp add: digit_val_nonneg)
  have nn: "0 \<le> ?v" using d Cons.prems(2) by simp
  have "?v \<le> dec_value ?v ds" using dec_value_mono [of ds ?v] Cons.prems(1) nn by simp
  then have le: "?v \<le> 180" using Cons.prems(3) by simp
  have "coord_loop (ds @ rest) ?v fracdig 0 = coord_loop rest (dec_value ?v ds) fracdig 0"
    using Cons.IH [of ?v] Cons.prems nn by simp
  then show ?case using le Cons.prems(1) by simp
qed

lemma coord_loop_frac_part:
  "list_all is_digit fs \<Longrightarrow> fracdig + length fs \<le> 7 \<Longrightarrow> fracdig < 7 \<Longrightarrow>
   coord_loop fs v fracdig (Suc 0) = Inr (dec_value v fs, fracdig + length fs, Suc 0)"
proof (induction fs arbitrary: v fracdig)
  case Nil then show ?case by simp
next
  case (Cons c fs)
  show ?case
  proof (cases "fracdig + 1 = 7")
    case True
    then have "fs = []" using Cons.prems(2) by simp
    then show ?thesis using True Cons.prems(1) by simp
  next
    case False
    then have "coord_loop fs (v * 10 + digit_val c) (fracdig + 1) (Suc 0) =
        Inr (dec_value (v * 10 + digit_val c) fs, fracdig + 1 + length fs, Suc 0)"
      using Cons.IH [of "fracdig + 1" "v * 10 + digit_val c"] Cons.prems by simp
    then show ?thesis using False Cons.prems(1) by simp
  qed
qed

lemma not_minus_digit: "is_digit c \<Longrightarrow> c \<noteq> CHR ''-''"
  by (auto simp: is_digit_def)

lemma ParseCoord_no_sign:
  "(\<And>c r. str = c # r \<Longrightarrow> c \<noteq> CHR ''-'') \<Longrightarrow>
   ParseCoord str =
    (case coord_loop str 0 0 0 of
       Inl e \<Rightarrow> Inl e
     | Inr (val, fracdig, haddot) \<Rightarrow>
         if haddot > 1 then Inl (ParsingException ''bad coordinate format (multiple dots)'')
         else Inr (val * 10 ^ (7 - fracdig)))"
  by (cases str) (simp_all add: ParseCoord_def split: sum.splits)

lemma ParseCoord_sign:
  "ParseCoord (CHR ''-'' # cur) =
    (case coord_loop cur 0 0 0 of
       Inl e \<Rightarrow> Inl e
     | Inr (val, fracdig, haddot) \<Rightarrow>
         if haddot > 1 then Inl (ParsingException ''bad coordinate format (multiple dots)'')
         else Inr (- (val * 10 ^ (7 - fracdig))))"
  by (simp add: ParseCoord_def split: sum.splits)

lemma coord_loop_error_kind: "coord_loop s v f h = Inl e \<Longrightarrow> \<exists>m. e = ParsingException m"
  by (induction s v f h rule: coord_loop.induct) (auto simp: Let_def split: if_splits)

lemma coord_loop_haddot_mono: "coord_loop s v f h = Inr (v', f', h') \<Longrightarrow> h \<le> h'"
proof (induction s v f h rule: coord_loop.induct)
  case (1 val fracdig haddot)
  then show ?case by simp
next
  case (2 c cur val fracdig haddot)
  show ?case
  proof (cases "is_digit c")
    case True
    then show ?thesis using 2 by (auto simp: Let_def split: if_splits)
  next
    case False
    then show ?thesis using 2 by (fastforce split: if_splits)
  qed
qed

lemma coord_loop_skip:
  "CHR ''.'' \<notin> set a \<Longrightarrow> h = 0 \<or> f + length (filter is_digit a) < 7 \<Longrightarrow>
   (\<exists>m. coord_loop (a @ b) v f h = Inl (ParsingException m)) \<or>
   (\<exists>v' f'. coord_loop (a @ b) v f h = coord_loop b v' f' h \<and>
        (if h = 0 then f' = f else f' = f + length (filter is_digit a)))"
proof (induction a arbitrary: v f)
  case Nil
  then show ?case by auto
next
  case (Cons c a)
  have nd: "c \<noteq> CHR ''.''" and na: "CHR ''.'' \<notin> set a" using Cons.prems(1) by auto
  show ?case
  proof (cases "is_digit c")
    case False
    then show ?thesis using nd by simp
  next
    case True
    let ?v = "v * 10 + digit_val c"
    show ?thesis
    proof (cases "h = 0")
      case h0: True
      show ?thesis
      proof (cases "180 < ?v")
        case True
        then show ?thesis using h0 \<open>is_digit c\<close> by simp
      next
        case False
        have "(\<exists>m. coord_loop (a @ b) ?v f h = Inl (ParsingException m)) \<or>
          (\<exists>v' f'. coord_loop (a @ b) ?v f h = coord_loop b v' f' h \<and>
            (if h = 0 then f' = f else f' = f + length (filter is_digit a)))"
          using Cons.IH [of f ?v] na h0 by simp
        moreover have "coord_loop ((c # a) @ b) v f h = coord_loop (a @ b) ?v f h"
          using h0 False \<open>is_digit c\<close> by simp
        ultimately show ?thesis using h0 by simp
      qed
    next
      case hn: False
      then have lt: "f + 1 + length (filter is_digit a) < 7"
        using Cons.prems(2) True by simp
      have "(\<exists>m. coord_loop (a @ b) ?v (f + 1) h = Inl (ParsingException m)) \<or>
          (\<exists>v' f'. coord_loop (a @ b) ?v (f + 1) h = coord_loop b v' f' h \<and>
            (if h = 0 then f' = f + 1 else f' = f + 1 + length (filter is_digit a)))"
        using Cons.IH [of "f + 1" ?v] na lt by simp
      moreover have "coord_loop ((c # a) @ b) v f h = coord_loop (a @ b) ?v (f + 1) h"
        using hn lt \<open>is_digit c\<close> by simp
      ultimately show ?thesis using hn True by auto
    qed
  qed
qed

lemma coord_loop_second_dot:
  assumes pre: "CHR ''.'' \<notin> set pre" and mid: "CHR ''.'' \<notin> set mid"
    and few: "length (filter is_digit mid) < 7"
  shows "(\<exists>m. coord_loop (pre @ ''.'' @ mid @ ''.'' @ rest) 0 0 0 = Inl (ParsingException m)) \<or>
         (\<exists>v f h. coord_loop (pre @ ''.'' @ mid @ ''.'' @ rest) 0 0 0 = Inr (v, f, h) \<and> 1 < h)"
proof -
  let ?s = "pre @ ''.'' @ mid @ ''.'' @ rest"
  consider (err) m where "coord_loop ?s 0 0 0 = Inl (ParsingException m)"
    | (go) v1 where "coord_loop ?s 0 0 0 = coord_loop (''.'' @ mid @ ''.'' @ rest) v1 0 0"
    using coord_loop_skip [OF pre, of 0 0 "''.'' @ mid @ ''.'' @ rest" 0] by auto
  then show ?thesis
  proof cases
    case err then show ?thesis by blast
  next
    case go
    have dot: "\<not> is_digit CHR ''.''" by (simp add: is_digit_def)
    have s1: "coord_loop ?s 0 0 0 = coord_loop (mid @ ''.'' @ rest) v1 0 (Suc 0)"
      using go dot by simp
    consider (err2) m where
        "coord_loop (mid @ ''.'' @ rest) v1 0 (Suc 0) = Inl (ParsingException m)"
      | (go2) v2 f2 where
        "coord_loop (mid @ ''.'' @ rest) v1 0 (Suc 0) = coord_loop (''.'' @ rest) v2 f2 (Suc 0)"
      using coord_loop_skip [OF mid, of "Suc 0" 0 "''.'' @ rest" v1] few by auto
    then show ?thesis
    proof cases
      case err2 then show ?thesis using s1 by simp
    next
      case go2
      have s2: "coord_loop ?s 0 0 0 = coord_loop rest v2 f2 (Suc (Suc 0))"
        using s1 go2 dot by simp
      show ?thesis
      proof (cases "coord_loop rest v2 f2 (Suc (Suc 0))")
        case (Inl e)
        then show ?thesis using s2 coord_loop_error_kind [of rest v2 f2 "Suc (Suc 0)" e] by auto
      next
        case (Inr t)
        obtain v f h where t: "t = (v, f, h)" by (cases t) auto
        then have "Suc (Suc 0) \<le> h" using Inr coord_loop_haddot_mono by blast
        then show ?thesis using s2 Inr t by auto
      qed
    qed
  qed
qed

subsection \<open>ParseCoord stays within the range of int\<close>

text \<open>The local \<^verbatim>\<open>value\<close> is a C \<^verbatim>\<open>int\<close>; it never overflows, so the model computes in \<open>int\<close>.\<close>

lemma digit_val_le_9: "is_digit c \<Longrightarrow> digit_val c \<le> 9"
  by (simp add: is_digit_def digit_val_def)

lemma coord_loop_range:
  "coord_loop s v f h = Inr (v', f', h') \<Longrightarrow> 0 \<le> v \<Longrightarrow> v < 181 * 10 ^ f \<Longrightarrow> f < 7 \<Longrightarrow>
   0 \<le> v' \<and> v' < 181 * 10 ^ f' \<and> f' \<le> 7"
proof (induction s v f h rule: coord_loop.induct)
  case (1 val fracdig haddot)
  then show ?case by simp
next
  case (2 c cur val fracdig haddot)
  show ?case
  proof (cases "is_digit c")
    case False
    then show ?thesis using 2 by (auto split: if_splits)
  next
    case True
    let ?v = "val * 10 + digit_val c"
    have d: "0 \<le> digit_val c" "digit_val c \<le> 9"
      using True digit_val_nonneg digit_val_le_9 by simp_all
    have nn: "0 \<le> ?v" using d "2.prems"(2) by simp
    have up: "?v < 181 * 10 ^ (fracdig + 1)" using d "2.prems"(3) by simp
    show ?thesis
    proof (cases "haddot = 0")
      case h0: True
      then have small: "\<not> 180 < ?v"
        using "2.prems"(1) True by (auto simp: Let_def split: if_splits)
      have "(1 :: int) \<le> 10 ^ fracdig" by simp
      then have "(181 :: int) \<le> 181 * 10 ^ fracdig" by linarith
      then have lt: "?v < 181 * 10 ^ fracdig" using small by linarith
      have "coord_loop cur ?v fracdig haddot = Inr (v', f', h')"
        using "2.prems"(1) True h0 small by (simp add: Let_def)
      then show ?thesis
        using "2.IH"(2) [OF True refl _ _ _ nn lt "2.prems"(4)] h0 small by simp
    next
      case hn: False
      show ?thesis
      proof (cases "fracdig + 1 = 7")
        case True
        then have "v' = ?v" "f' = 7"
          using "2.prems"(1) \<open>is_digit c\<close> hn by (simp_all add: Let_def)
        then show ?thesis using nn up True by simp
      next
        case False
        then have lt7: "fracdig + 1 < 7" using "2.prems"(4) by simp
        have "coord_loop cur ?v (fracdig + 1) haddot = Inr (v', f', h')"
          using "2.prems"(1) \<open>is_digit c\<close> hn False by (simp add: Let_def)
        then show ?thesis
          using "2.IH"(1) [OF \<open>is_digit c\<close> refl _ hn False _ nn up lt7] hn by simp
      qed
    qed
  qed
qed

lemma ParseCoord_range:
  assumes "ParseCoord str = Inr v"
  shows "- 1810000000 < v \<and> v < 1810000000"
proof -
  have "\<exists>cur val fracdig haddot. coord_loop cur 0 0 0 = Inr (val, fracdig, haddot) \<and>
          (v = val * 10 ^ (7 - fracdig) \<or> v = - (val * 10 ^ (7 - fracdig)))"
  proof (cases "\<exists>r. str = CHR ''-'' # r")
    case True
    then obtain r where "str = CHR ''-'' # r" by blast
    then show ?thesis
      using assms by (fastforce simp: ParseCoord_sign split: sum.splits if_splits)
  next
    case False
    then have "\<And>c r. str = c # r \<Longrightarrow> c \<noteq> CHR ''-''" by simp
    then show ?thesis
      using assms by (fastforce simp: ParseCoord_no_sign split: sum.splits if_splits)
  qed
  then obtain cur val fracdig haddot where l: "coord_loop cur 0 0 0 = Inr (val, fracdig, haddot)"
    and v: "v = val * 10 ^ (7 - fracdig) \<or> v = - (val * 10 ^ (7 - fracdig))"
    by blast
  have r: "0 \<le> val \<and> val < 181 * 10 ^ fracdig \<and> fracdig \<le> 7"
    using coord_loop_range [OF l] by simp
  then have "val * 10 ^ (7 - fracdig) < (181 * 10 ^ fracdig) * 10 ^ (7 - fracdig)"
    by (simp add: mult_strict_right_mono)
  also have "\<dots> = 181 * 10 ^ 7"
    using r by (simp add: power_add [symmetric])
  finally have "val * 10 ^ (7 - fracdig) < 1810000000" by simp
  moreover have "0 \<le> val * 10 ^ (7 - fracdig)" using r by simp
  ultimately show ?thesis using v by auto
qed

subsection \<open>Lemmas on end-of-way processing\<close>

text \<open>The two loops of \<^verbatim>\<open>EndElement\<close> when every reference resolves, and when one does not.\<close>

lemma osmlong_idem: "osmlong (osmlong a + b) = osmlong (a + b)"
  by (simp add: osmlong_def)

lemma osmlong_id: "- (2 ^ 63) \<le> v \<Longrightarrow> v < 2 ^ 63 \<Longrightarrow> osmlong v = v"
  by (simp add: osmlong_def sint_sbintrunc' signed_take_bit_int_eq_self)

lemma osmlong_0: "osmlong 0 = 0"
  by (simp add: osmlong_def)

lemma closed_loop_resolved_from:
  "map (map_of nds) ids = map Some ns \<Longrightarrow>
   closed_loop nds w ids (Some p) (osmlong a) b =
     Returns (osmlong (a + shoelace (Pos p # map Pos ns)), foldl Include b (map Pos ns))"
proof (induction ids arbitrary: ns p a b)
  case Nil
  then show ?case by simp
next
  case (Cons i ids)
  then obtain n ns' where ns: "ns = n # ns'" and i: "map_of nds i = Some n"
    and rest: "map (map_of nds) ids = map Some ns'"
    by (cases ns) auto
  let ?t = "fst (Pos p) * snd (Pos n) - fst (Pos n) * snd (Pos p)"
  have "closed_loop nds w (i # ids) (Some p) (osmlong a) b =
        closed_loop nds w ids (Some n) (osmlong (a + ?t)) (Include b (Pos n))"
    using i by (simp add: osmlong_idem)
  also have "\<dots> = Returns (osmlong (a + ?t + shoelace (Pos n # map Pos ns')),
                           foldl Include (Include b (Pos n)) (map Pos ns'))"
    using Cons.IH [OF rest] by simp
  finally show ?case by (simp add: ns add.assoc)
qed

lemma closed_loop_resolved:
  assumes "map (map_of nds) ids = map Some ns"
  shows "closed_loop nds w ids None 0 b =
     Returns (osmlong (shoelace (map Pos ns)), foldl Include b (map Pos ns))"
proof (cases ids)
  case Nil
  then show ?thesis using assms by (simp add: osmlong_0)
next
  case (Cons i ids')
  then obtain n ns' where ns: "ns = n # ns'" and i: "map_of nds i = Some n"
    and rest: "map (map_of nds) ids' = map Some ns'"
    using assms by (cases ns) auto
  have "closed_loop nds w ids None 0 b =
        closed_loop nds w ids' (Some n) (osmlong 0) (Include b (Pos n))"
    using Cons i by (simp add: osmlong_0)
  then show ?thesis using closed_loop_resolved_from [OF rest, of w n 0] ns by simp
qed

lemma closed_loop_missing:
  "\<forall>j\<in>set pre. map_of nds j \<noteq> None \<Longrightarrow> map_of nds i = None \<Longrightarrow>
   \<exists>a' b'. closed_loop nds w (pre @ i # post) prev a b = Throws (not_found i w) (a', b')"
proof (induction pre arbitrary: prev a b)
  case Nil
  then show ?case by simp
next
  case (Cons j pre)
  then obtain n where n: "map_of nds j = Some n" by auto
  show ?case
  proof (cases prev)
    case None
    then show ?thesis using n Cons.IH [of "Some n" a "Include b (Pos n)"] Cons.prems by simp
  next
    case (Some p)
    then show ?thesis using n Cons.IH [of "Some n" _ "Include b (Pos n)"] Cons.prems by simp
  qed
qed

lemma open_loop_missing:
  "\<forall>j\<in>set pre. map_of nds j \<noteq> None \<Longrightarrow> map_of nds i = None \<Longrightarrow>
   \<exists>b'. open_loop nds w (pre @ i # post) b = Throws (not_found i w) b'"
proof (induction pre arbitrary: b)
  case Nil
  then show ?case by simp
next
  case (Cons j pre)
  then obtain n where n: "map_of nds j = Some n" by auto
  then show ?case using Cons.IH [of "Include b (Pos n)"] Cons.prems by simp
qed

lemma open_loop_resolved:
  "map (map_of nds) ids = map Some ns \<Longrightarrow>
   open_loop nds w ids b = Returns (foldl Include b (map Pos ns))"
proof (induction ids arbitrary: ns b)
  case Nil
  then show ?case by simp
next
  case (Cons i ids)
  then obtain n ns' where ns: "ns = n # ns'" and i: "map_of nds i = Some n"
    and rest: "map (map_of nds) ids = map Some ns'"
    by (cases ns) auto
  show ?case using Cons.IH [OF rest] i ns by simp
qed

lemma end_way_missing:
  assumes "Nodes way = pre @ i # post" and "\<forall>j\<in>set pre. map_of nds j \<noteq> None"
    and "map_of nds i = None"
  shows "\<exists>way'. end_way nds w way = Throws (not_found i w) way'"
proof (cases "hd (Nodes way) = last (Nodes way)")
  case True
  obtain a' b' where "closed_loop nds w (Nodes way) None 0 (BBox way) = Throws (not_found i w) (a', b')"
    using closed_loop_missing [OF assms(2,3)] assms(1) by metis
  then show ?thesis using True assms(1) by (simp add: end_way_def)
next
  case False
  obtain b' where "open_loop nds w (Nodes way) (BBox way) = Throws (not_found i w) b'"
    using open_loop_missing [OF assms(2,3)] assms(1) by metis
  then show ?thesis using False assms(1) by (simp add: end_way_def)
qed

lemma end_way_closed:
  assumes "Nodes way \<noteq> []" and "hd (Nodes way) = last (Nodes way)"
    and "map (map_of nds) (Nodes way) = map Some ns"
  shows "end_way nds w way =
    Returns (way\<lparr>Closed := True, BBox := foldl Include (BBox way) (map Pos ns),
                 Clockwise := osmlong (shoelace (map Pos ns)) < 0\<rparr>)"
  using assms closed_loop_resolved [OF assms(3), of w "BBox way"] by (simp add: end_way_def)

lemma end_way_open:
  assumes "Nodes way \<noteq> []" and "hd (Nodes way) \<noteq> last (Nodes way)"
    and "map (map_of nds) (Nodes way) = map Some ns"
  shows "end_way nds w way = Returns (way\<lparr>BBox := foldl Include (BBox way) (map Pos ns)\<rparr>)"
  using assms open_loop_resolved [OF assms(3), of w "BBox way"] by (simp add: end_way_def)

lemma map_of_map_modify:
  "map_of (map_modify k f m) k' = (if k' = k then map_option f (map_of m k) else map_of m k')"
  by (induction m) (auto simp: map_modify_def)

lemma StrEq_nd_tag: "\<not> StrEq trusted 1 ''nd'' ''tag''"
  by (simp add: StrEq_def c_at_def)

lemma StrEq_nd_nd: "StrEq trusted 1 ''nd'' ''nd''"
  by (simp add: StrEq_def c_at_def)

lemma StrEq_ref_ref: "StrEq trusted 0 ''ref'' ''ref''"
  by (simp add: StrEq_def)

lemma StartElement_nd:
  assumes "tag_level st = 2" and "InsideWhich st = WAY" and "last_way st = Some w"
    and "map_of (ways st) w = Some way"
  shows "StartElement trusted ''nd'' ((''ref'', v) # att) st =
    Returns (st\<lparr>ways := map_modify w
                  (\<lambda>way. way\<lparr>Nodes := Nodes way @ [int_of_long (strtol v)]\<rparr>) (ways st),
                tag_level := 3\<rparr>)"
  using assms by (simp add: StartElement_def StrEq_nd_tag StrEq_nd_nd StrEq_ref_ref)

subsection \<open>Decimal numerals, strtol and show_int\<close>

text \<open>Reading back a printed integer: \<^verbatim>\<open>strtol\<close> inverts \<open>show_int\<close> on the range of \<^verbatim>\<open>long\<close>.\<close>

lemma digit_char:
  assumes "k < 10"
  shows "is_digit (char_of (48 + k)) \<and> digit_val (char_of (48 + k)) = int k"
proof -
  have "(of_char (char_of (48 + k)) :: int) = int (of_char (char_of (48 + k)))"
    by (simp only: of_nat_of_char)
  also have "\<dots> = 48 + int k" using assms by simp
  finally show ?thesis using assms by (simp add: is_digit_def digit_val_def)
qed

lemma show_nat_digits: "list_all is_digit (show_nat n) \<and> show_nat n \<noteq> []"
proof (induction n rule: show_nat.induct)
  case (1 n)
  show ?case
  proof (cases "n < 10")
    case True
    then show ?thesis using digit_char [of n] by (subst show_nat.simps, subst show_nat.simps) simp
  next
    case False
    have "n mod 10 < 10" by simp
    then have "is_digit (char_of (48 + n mod 10))" using digit_char by blast
    then show ?thesis using False 1 by (subst show_nat.simps, subst (2) show_nat.simps) simp
  qed
qed

lemma dec_value_snoc: "dec_value v (ds @ [c]) = dec_value v ds * 10 + digit_val c"
  by (simp add: dec_value_def)

lemma dec_value_show_nat: "dec_value 0 (show_nat n) = int n"
proof (induction n rule: show_nat.induct)
  case (1 n)
  show ?case
  proof (cases "n < 10")
    case True
    then show ?thesis using digit_char [of n] by (subst show_nat.simps) simp
  next
    case False
    have "n mod 10 < 10" by simp
    then have d: "digit_val (char_of (48 + n mod 10)) = int (n mod 10)" using digit_char by blast
    have "dec_value 0 (show_nat n) = dec_value 0 (show_nat (n div 10)) * 10 + int (n mod 10)"
      using False d by (subst show_nat.simps) (simp add: dec_value_snoc)
    also have "\<dots> = int (n div 10) * 10 + int (n mod 10)" using 1 False by simp
    also have "\<dots> = int n" by (simp add: zdiv_int zmod_int)
    finally show ?thesis .
  qed
qed

lemma takeWhile_all: "list_all P xs \<Longrightarrow> takeWhile P xs = xs"
  by (induction xs) auto

lemma is_digit_plain: "is_digit c \<Longrightarrow> \<not> isspace c \<and> c \<noteq> CHR ''-'' \<and> c \<noteq> CHR ''+''"
  by (auto simp: is_digit_def isspace_def)

lemma strtol_digits:
  assumes "list_all is_digit ds" and "ds \<noteq> []"
  shows "strtol ds = min (dec_value 0 ds) LONG_MAX"
    and "strtol (CHR ''-'' # ds) = max (- dec_value 0 ds) LONG_MIN"
proof -
  obtain c r where ds: "ds = c # r" using assms(2) by (cases ds) auto
  then have c: "\<not> isspace c \<and> c \<noteq> CHR ''-'' \<and> c \<noteq> CHR ''+''"
    using assms(1) is_digit_plain by simp
  have tw: "takeWhile is_digit (c # r) = c # r" using takeWhile_all assms(1) ds by blast
  show "strtol ds = min (dec_value 0 ds) LONG_MAX"
    using c by (simp add: strtol_def ds tw del: takeWhile.simps dec_value_Cons)
  have "\<not> isspace CHR ''-''" by (simp add: isspace_def)
  then show "strtol (CHR ''-'' # ds) = max (- dec_value 0 ds) LONG_MIN"
    by (simp add: strtol_def ds tw del: takeWhile.simps dec_value_Cons)
qed

lemma strtol_show_int:
  assumes "LONG_MIN \<le> n" and "n \<le> LONG_MAX"
  shows "strtol (show_int n) = n"
proof (cases "n < 0")
  case True
  have "strtol (show_int n) = max (- dec_value 0 (show_nat (nat (- n)))) LONG_MIN"
    using True strtol_digits(2) [of "show_nat (nat (- n))"] show_nat_digits
    by (simp add: show_int_def)
  then show ?thesis using True assms by (simp add: dec_value_show_nat)
next
  case False
  have "strtol (show_int n) = min (dec_value 0 (show_nat (nat n))) LONG_MAX"
    using False strtol_digits(1) [of "show_nat (nat n)"] show_nat_digits
    by (simp add: show_int_def)
  then show ?thesis using False assms by (simp add: dec_value_show_nat)
qed

lemma int_of_long_id: "- (2 ^ 31) \<le> v \<Longrightarrow> v < 2 ^ 31 \<Longrightarrow> int_of_long v = v"
  by (simp add: int_of_long_def sint_sbintrunc' signed_take_bit_int_eq_self)

lemma id_roundtrip:
  assumes "- (2 ^ 31) \<le> n" and "n < 2 ^ 31"
  shows "int_of_long (strtol (show_int n)) = n"
proof -
  have "LONG_MIN \<le> n" and "n \<le> LONG_MAX" using assms by (simp_all add: LONG_MIN_def LONG_MAX_def)
  then show ?thesis using strtol_show_int int_of_long_id assms by simp
qed

lemma strtol_show_int_clamp: "strtol (show_int m) = max LONG_MIN (min m LONG_MAX)"
proof (cases "m < 0")
  case True
  have "strtol (show_int m) = max (- dec_value 0 (show_nat (nat (- m)))) LONG_MIN"
    using True strtol_digits(2) [of "show_nat (nat (- m))"] show_nat_digits
    by (simp add: show_int_def)
  then show ?thesis using True by (simp add: dec_value_show_nat LONG_MAX_def LONG_MIN_def)
next
  case False
  have "strtol (show_int m) = min (dec_value 0 (show_nat (nat m))) LONG_MAX"
    using False strtol_digits(1) [of "show_nat (nat m)"] show_nat_digits
    by (simp add: show_int_def)
  then show ?thesis using False by (simp add: dec_value_show_nat LONG_MAX_def LONG_MIN_def)
qed

subsection \<open>Lemmas on std::map and ParseTag\<close>

text \<open>Lookup after \<open>map_insert\<close> and \<open>map_modify\<close>, and a run of \<^verbatim>\<open>tag\<close> elements inside a way.\<close>

lemma map_of_below: "sorted (a # map fst m) \<Longrightarrow> k < a \<Longrightarrow> map_of m k = None"
  by (induction m) (auto split: if_splits)

lemma map_insert_keys: "set (map fst (map_insert k v m)) = insert k (set (map fst m))"
proof (induction m)
  case Nil
  then show ?case by simp
next
  case (Cons x m)
  obtain a b where x: "x = (a, b)" by (cases x) auto
  show ?case using Cons.IH by (simp add: x insert_commute)
qed

lemma map_insert_sorted: "sorted (map fst m) \<Longrightarrow> sorted (map fst (map_insert k v m))"
proof (induction m)
  case Nil
  then show ?case by simp
next
  case (Cons x m)
  obtain a b where x: "x = (a, b)" by (cases x) auto
  have "sorted (map fst (map_insert k v m))" using Cons by simp
  moreover have "\<forall>y\<in>set (map fst (map_insert k v m)). a \<le> y" if "a < k"
    using that Cons.prems x map_insert_keys [of k v m] by auto
  ultimately show ?case using Cons.prems x by auto
qed

lemma map_of_map_insert:
  "sorted (map fst m) \<Longrightarrow>
   map_of (map_insert k v m) k' =
     (case map_of m k' of Some y \<Rightarrow> Some y | None \<Rightarrow> if k' = k then Some v else None)"
proof (induction m)
  case Nil
  then show ?case by simp
next
  case (Cons x m)
  obtain a b where x: "x = (a, b)" by (cases x) auto
  show ?case
  proof (cases "k < a")
    case True
    then have "map_of m k = None" using Cons.prems x map_of_below [of a m k] by simp
    then show ?thesis using True x by (auto split: option.splits)
  next
    case False
    then show ?thesis using Cons x by (auto split: option.splits)
  qed
qed

lemma map_of_map_insert_new:
  "map_of m k = None \<Longrightarrow> map_of (map_insert k v m) k = Some v"
  by (induction m) (auto split: if_splits)

lemma ParseTag_sorted: "sorted (map fst m) \<Longrightarrow> sorted (map fst (ParseTag trusted m att))"
  by (simp add: ParseTag_def map_insert_sorted split: prod.splits)

lemma map_of_ParseTag:
  "sorted (map fst m) \<Longrightarrow>
   map_of (ParseTag trusted m att) k =
     (case map_of m k of
        Some y \<Rightarrow> Some y
      | None \<Rightarrow> if tag_key trusted att = k then Some (tag_value trusted att) else None)"
  by (auto simp: ParseTag_def tag_key_def tag_value_def map_of_map_insert
           split: prod.splits option.splits)

lemma StrEq_tag_tag: "StrEq trusted 1 ''tag'' ''tag''"
  by (simp add: StrEq_def c_at_def)

lemma tag_element_in_way:
  assumes "tag_level st = 2" and "InsideWhich st = WAY" and "last_way st = Some w"
    and "map_of (ways st) w = Some way"
  shows "parse_events trusted (element ''tag'' att pos @ evs) fin st =
         parse_events trusted evs fin
           (st\<lparr>ways := map_modify w (\<lambda>way. way\<lparr>Tags := ParseTag trusted (Tags way) att\<rparr>) (ways st),
               tag_level := 2\<rparr>)"
proof -
  obtain line col where pos: "pos = (line, col)" by (cases pos) auto
  have s: "StartElement trusted ''tag'' att st =
      Returns (st\<lparr>ways := map_modify w (\<lambda>way. way\<lparr>Tags := ParseTag trusted (Tags way) att\<rparr>) (ways st),
                  tag_level := 3\<rparr>)"
    using assms by (simp add: StartElement_def StrEq_tag_tag)
  show ?thesis
    by (simp add: element_def pos s EndElement_def)
qed

lemma tags_in_way:
  assumes "tag_level st = 2" and "InsideWhich st = WAY" and "last_way st = Some w"
    and "map_of (ways st) w = Some way"
  shows "\<exists>st'. parse_events trusted (concat (map (\<lambda>(att, pos). element ''tag'' att pos) tags))
                  EndOfInput st = Returns st' \<and>
           map_of (ways st') w =
             Some (way\<lparr>Tags := foldl (ParseTag trusted) (Tags way) (map fst tags)\<rparr>)"
  using assms
proof (induction tags arbitrary: st way)
  case Nil
  then show ?case by simp
next
  case (Cons t tags)
  obtain att pos where t: "t = (att, pos)" by (cases t) auto
  let ?way = "way\<lparr>Tags := ParseTag trusted (Tags way) att\<rparr>"
  let ?st = "st\<lparr>ways := map_modify w (\<lambda>way. way\<lparr>Tags := ParseTag trusted (Tags way) att\<rparr>) (ways st),
               tag_level := 2\<rparr>"
  have m: "map_of (ways ?st) w = Some ?way"
    using Cons.prems(4) by (simp add: map_of_map_modify)
  have "\<exists>st'. parse_events trusted (concat (map (\<lambda>(att, pos). element ''tag'' att pos) tags))
                  EndOfInput ?st = Returns st' \<and>
           map_of (ways st') w =
             Some (?way\<lparr>Tags := foldl (ParseTag trusted) (Tags ?way) (map fst tags)\<rparr>)"
    using Cons.IH [of ?st ?way] Cons.prems(2,3) m by simp
  then show ?case
    using tag_element_in_way [OF Cons.prems(1-4)] t by simp
qed

lemma map_of_foldl_ParseTag:
  "sorted (map fst m) \<Longrightarrow>
   map_of (foldl (ParseTag trusted) m atts) k =
     (case map_of m k of
        Some y \<Rightarrow> Some y
      | None \<Rightarrow> map_option (tag_value trusted) (find (\<lambda>att. tag_key trusted att = k) atts))"
proof (induction atts arbitrary: m)
  case Nil
  then show ?case by (simp split: option.splits)
next
  case (Cons att atts)
  have "sorted (map fst (ParseTag trusted m att))" using Cons.prems by (rule ParseTag_sorted)
  then show ?case
    using Cons.IH [of "ParseTag trusted m att"] Cons.prems
    by (simp add: map_of_ParseTag split: option.splits)
qed

subsection \<open>The bounding box during a load\<close>

text \<open>Only the \<^verbatim>\<open>bounds\<close> and \<^verbatim>\<open>bound\<close> elements assign the dataset bounding box.\<close>

lemma StrEq_exact [simp]: "StrEq trusted (- 1) one two = (one = two)"
  by (simp add: StrEq_def)

lemma StartElement_bbox:
  assumes "StartElement trusted name att st = Returns st'"
    and "name \<noteq> ''bounds''" and "name \<noteq> ''bound''"
  shows "bbox st' = bbox st"
  using assms unfolding StartElement_def
  by (auto split: if_splits sum.splits prod.splits option.splits list.splits)

lemma EndElement_bbox: "EndElement st = Returns st' \<Longrightarrow> bbox st' = bbox st"
  unfolding EndElement_def
  by (auto split: if_splits option.splits outcome.splits)

lemma parse_events_bbox:
  "parse_events trusted evs fin st = Returns st' \<Longrightarrow>
   \<forall>ev\<in>set evs. \<forall>att. fst ev \<noteq> StartTag ''bounds'' att \<and> fst ev \<noteq> StartTag ''bound'' att \<Longrightarrow>
   bbox st' = bbox st"
proof (induction evs arbitrary: st)
  case Nil
  then show ?case by (simp split: ending.splits)
next
  case (Cons x evs)
  obtain ev line col where x: "x = (ev, line, col)" by (cases x) auto
  show ?case
  proof (cases ev)
    case (StartTag name att)
    then obtain st1 where s1: "StartElement trusted name att st = Returns st1"
      and r: "parse_events trusted evs fin st1 = Returns st'"
      using Cons.prems(1) x by (auto split: outcome.splits)
    have "name \<noteq> ''bounds''" and "name \<noteq> ''bound''"
      using Cons.prems(2) x StartTag by auto
    then have "bbox st1 = bbox st" using StartElement_bbox [OF s1] by simp
    moreover have "bbox st' = bbox st1" using Cons.IH [OF r] Cons.prems(2) by simp
    ultimately show ?thesis by simp
  next
    case (EndTag name)
    then obtain st1 where s1: "EndElement st = Returns st1"
      and r: "parse_events trusted evs fin st1 = Returns st'"
      using Cons.prems(1) x by (auto split: outcome.splits)
    have "bbox st1 = bbox st" using EndElement_bbox [OF s1] .
    moreover have "bbox st' = bbox st1" using Cons.IH [OF r] Cons.prems(2) by simp
    ultimately show ?thesis by simp
  qed
qed

lemma IsEmpty_Empty: "IsEmpty Empty"
  by (simp add: IsEmpty_def Empty_def INT_MAX_def INT_MIN_def)

lemma postprocess_Empty:
  "bbox st = Empty \<Longrightarrow>
   postprocess st = st\<lparr>bbox := foldl Include Empty (map (\<lambda>(i, n). Pos n) (nodes st))\<rparr>"
  by (simp add: postprocess_def IsEmpty_Empty)

subsection \<open>The attribute loops in the default build\<close>

text \<open>With distinct attribute names, the loops read each attribute wherever it stands.\<close>

lemma map_of_distinct_head:
  "distinct (map fst ((n, v) # att)) \<Longrightarrow> map_of att n = None"
  by (simp add: map_of_eq_None_iff)

lemma top_loop_default:
  "distinct (map fst att) \<Longrightarrow>
   \<forall>v. (''lat'', v) \<in> set att \<or> (''lon'', v) \<in> set att \<longrightarrow> (\<exists>c. ParseCoord v = Inr c) \<Longrightarrow>
   top_loop False att (i, a, b) =
     Inr (case map_of att ''id'' of None \<Rightarrow> i | Some v \<Rightarrow> int_of_long (strtol v),
          case map_of att ''lat'' of None \<Rightarrow> a | Some v \<Rightarrow> projr (ParseCoord v),
          case map_of att ''lon'' of None \<Rightarrow> b | Some v \<Rightarrow> projr (ParseCoord v))"
proof (induction att arbitrary: i a b)
  case Nil
  then show ?case by simp
next
  case (Cons x att)
  obtain n v where x: "x = (n, v)" by (cases x) auto
  have none: "map_of att n = None" using Cons.prems(1) unfolding x by (rule map_of_distinct_head)
  have d: "distinct (map fst att)" using Cons.prems(1) by simp
  have p: "\<forall>v. (''lat'', v) \<in> set att \<or> (''lon'', v) \<in> set att \<longrightarrow> (\<exists>c. ParseCoord v = Inr c)"
    using Cons.prems(2) by auto
  note IH = Cons.IH [OF d p]
  show ?case
  proof (cases "n = ''id''")
    case True
    then show ?thesis using none x IH [of "int_of_long (strtol v)" a b] by (simp add: StrEq_def)
  next
    case nid: False
    show ?thesis
    proof (cases "n = ''lat''")
      case True
      then obtain c where c: "ParseCoord v = Inr c" using Cons.prems(2) x by auto
      then show ?thesis using True none x IH [of i c b] by (simp add: StrEq_def)
    next
      case nlat: False
      show ?thesis
      proof (cases "n = ''lon''")
        case True
        then obtain c where c: "ParseCoord v = Inr c" using Cons.prems(2) x by auto
        then show ?thesis using True none x IH [of i a c] by (simp add: StrEq_def)
      next
        case False
        then show ?thesis using nid nlat x IH [of i a b] by (simp add: StrEq_def)
      qed
    qed
  qed
qed

lemma member_loop_default:
  "distinct (map fst att) \<Longrightarrow> set (map fst att) \<subseteq> {''ref'', ''type'', ''role''} \<Longrightarrow>
   \<forall>v. (''type'', v) \<in> set att \<longrightarrow> v \<in> {''node'', ''way'', ''relation''} \<Longrightarrow>
   member_loop False att (r, ro, ty) =
     Inr (case map_of att ''ref'' of None \<Rightarrow> r | Some v \<Rightarrow> Some (int_of_long (strtol v)),
          case map_of att ''role'' of None \<Rightarrow> ro | Some v \<Rightarrow> Some v,
          case map_of att ''type'' of None \<Rightarrow> ty | Some v \<Rightarrow> Some (member_type v))"
proof (induction att arbitrary: r ro ty)
  case Nil
  then show ?case by simp
next
  case (Cons x att)
  obtain n v where x: "x = (n, v)" by (cases x) auto
  have none: "map_of att n = None" using Cons.prems(1) unfolding x by (rule map_of_distinct_head)
  have d: "distinct (map fst att)" using Cons.prems(1) by simp
  have s: "set (map fst att) \<subseteq> {''ref'', ''type'', ''role''}" using Cons.prems(2) by simp
  have t: "\<forall>v. (''type'', v) \<in> set att \<longrightarrow> v \<in> {''node'', ''way'', ''relation''}"
    using Cons.prems(3) by auto
  note IH = Cons.IH [OF d s t]
  have "n = ''ref'' \<or> n = ''type'' \<or> n = ''role''" using Cons.prems(2) x by simp
  then consider (ref) "n = ''ref''" | (type) "n = ''type''" | (role) "n = ''role''" by blast
  then show ?case
  proof cases
    case ref
    then show ?thesis
      using none x IH [of "Some (int_of_long (strtol v))" ro ty] by (simp add: StrEq_def)
  next
    case type
    then have "v \<in> {''node'', ''way'', ''relation''}" using Cons.prems(3) x by auto
    then show ?thesis
      using type none x IH [of r ro "Some (member_type v)"]
      by (auto simp: StrEq_def member_type_def)
  next
    case role
    then show ?thesis using none x IH [of r "Some v" ty] by (simp add: StrEq_def)
  qed
qed

lemma StartElement_node_default:
  assumes "at_top st" and "distinct (map fst att)"
    and "map_of att ''id'' = Some s" and "map_of att ''lat'' = Some la"
    and "map_of att ''lon'' = Some lo" and "ParseCoord la = Inr y" and "ParseCoord lo = Inr x"
  shows "StartElement False ''node'' att st =
    Returns (st\<lparr>InsideWhich := NODE,
                nodes := map_insert (int_of_long (strtol s)) \<lparr>Pos = (x, y)\<rparr> (nodes st),
                last_node := Some (int_of_long (strtol s)),
                tag_level := tag_level st + 1\<rparr>)"
proof -
  have "\<forall>v. (''lat'', v) \<in> set att \<or> (''lon'', v) \<in> set att \<longrightarrow> (\<exists>c. ParseCoord v = Inr c)"
    using assms(4-7) map_of_is_SomeI [OF assms(2)] by fastforce
  then have "top_loop False att (0, 0, 0) = Inr (int_of_long (strtol s), y, x)"
    using top_loop_default [OF assms(2), of 0 0 0] assms(3-7) by simp
  then show ?thesis using assms(1) by (simp add: StartElement_def StrEq_def)
qed

lemma StartElement_way_relation_default:
  assumes "at_top st" and "distinct (map fst att)"
    and "map_of att ''id'' = Some s" and "map_of att ''lat'' = None"
    and "map_of att ''lon'' = None"
  shows "StartElement False ''way'' att st =
    Returns (st\<lparr>InsideWhich := WAY,
                ways := map_insert (int_of_long (strtol s)) new_Way (ways st),
                last_way := Some (int_of_long (strtol s)),
                tag_level := tag_level st + 1\<rparr>)"
    and "StartElement False ''relation'' att st =
    Returns (st\<lparr>InsideWhich := RELATION,
                relations := map_insert (int_of_long (strtol s)) new_Relation (relations st),
                last_relation := Some (int_of_long (strtol s)),
                tag_level := tag_level st + 1\<rparr>)"
proof -
  have "\<forall>v. (''lat'', v) \<in> set att \<or> (''lon'', v) \<in> set att \<longrightarrow> (\<exists>c. ParseCoord v = Inr c)"
    using assms(4,5) by (auto simp: map_of_eq_None_iff image_iff)
  then have t: "top_loop False att (0, 0, 0) = Inr (int_of_long (strtol s), 0, 0)"
    using top_loop_default [OF assms(2), of 0 0 0] assms(3-5) by simp
  show "StartElement False ''way'' att st =
    Returns (st\<lparr>InsideWhich := WAY,
                ways := map_insert (int_of_long (strtol s)) new_Way (ways st),
                last_way := Some (int_of_long (strtol s)),
                tag_level := tag_level st + 1\<rparr>)"
    using t assms(1) by (simp add: StartElement_def StrEq_def)
  show "StartElement False ''relation'' att st =
    Returns (st\<lparr>InsideWhich := RELATION,
                relations := map_insert (int_of_long (strtol s)) new_Relation (relations st),
                last_relation := Some (int_of_long (strtol s)),
                tag_level := tag_level st + 1\<rparr>)"
    using t assms(1) by (simp add: StartElement_def StrEq_def)
qed

lemma StartElement_member_default:
  assumes "in_relation st r rel" and "distinct (map fst att)"
    and "set (map fst att) \<subseteq> {''ref'', ''type'', ''role''}"
    and "map_of att ''ref'' = Some s" and "map_of att ''type'' = Some tv"
    and "tv \<in> {''node'', ''way'', ''relation''}" and "map_of att ''role'' = Some role"
  shows "StartElement False ''member'' att st =
    Returns (st\<lparr>relations := map_modify r
                  (\<lambda>rel. rel\<lparr>Members := Members rel @
                     [\<lparr>Type = member_type tv, Ref = int_of_long (strtol s), Role = role\<rparr>]\<rparr>)
                  (relations st),
                tag_level := tag_level st + 1\<rparr>)"
proof -
  have "\<forall>v. (''type'', v) \<in> set att \<longrightarrow> v \<in> {''node'', ''way'', ''relation''}"
    using assms(5,6) map_of_is_SomeI [OF assms(2)] by fastforce
  then have "member_loop False att (None, None, None) =
      Inr (Some (int_of_long (strtol s)), Some role, Some (member_type tv))"
    using member_loop_default [OF assms(2,3), of None None None] assms(4,5,7) by simp
  then show ?thesis using assms(1) by (simp add: StartElement_def StrEq_def)
qed

subsection \<open>Stored nodes during a load\<close>

text \<open>A stored node is never overwritten or removed by the handlers.\<close>

lemma StartElement_nodes_eq:
  assumes "StartElement trusted name att st = Returns st'"
  shows "nodes st' =
    (if at_top st \<and> StrEq trusted 1 name ''node''
     then (case top_loop trusted att (0, 0, 0) of
             Inr (i, la, lo) \<Rightarrow> map_insert i \<lparr>Pos = (lo, la)\<rparr> (nodes st)
           | Inl e \<Rightarrow> nodes st)
     else nodes st)"
  using assms unfolding StartElement_def
  by (auto split: if_splits sum.splits prod.splits option.splits list.splits)

lemma StartElement_nodes:
  assumes "StartElement trusted name att st = Returns st'"
  shows "nodes st' = nodes st \<or> (\<exists>i n. nodes st' = map_insert i n (nodes st))"
proof (cases "at_top st \<and> StrEq trusted 1 name ''node''")
  case True
  show ?thesis
  proof (cases "top_loop trusted att (0, 0, 0)")
    case (Inl e)
    then show ?thesis using StartElement_nodes_eq [OF assms] True by simp
  next
    case (Inr t)
    obtain i la lo where "t = (i, la, lo)" by (cases t) auto
    then have "nodes st' = map_insert i \<lparr>Pos = (lo, la)\<rparr> (nodes st)"
      using StartElement_nodes_eq [OF assms] True Inr by simp
    then show ?thesis by blast
  qed
next
  case False
  then have "nodes st' = nodes st" using StartElement_nodes_eq [OF assms] by auto
  then show ?thesis by simp
qed

lemma EndElement_nodes: "EndElement st = Returns st' \<Longrightarrow> nodes st' = nodes st"
  unfolding EndElement_def
  by (auto split: if_splits option.splits outcome.splits)

lemma map_insert_keeps:
  "sorted (map fst m) \<Longrightarrow> map_of m k = Some v \<Longrightarrow> map_of (map_insert i n m) k = Some v"
  by (simp add: map_of_map_insert)

lemma step_keeps_node:
  assumes "nodes st' = nodes st \<or> (\<exists>i n. nodes st' = map_insert i n (nodes st))"
    and "sorted (map fst (nodes st))" and "map_of (nodes st) k = Some v"
  shows "sorted (map fst (nodes st')) \<and> map_of (nodes st') k = Some v"
  using assms map_insert_sorted map_insert_keeps by fastforce

lemma parse_events_keeps_node:
  "parse_events trusted evs fin st = Returns st' \<Longrightarrow>
   sorted (map fst (nodes st)) \<Longrightarrow> map_of (nodes st) k = Some v \<Longrightarrow>
   map_of (nodes st') k = Some v"
proof (induction evs arbitrary: st)
  case Nil
  then show ?case by (simp split: ending.splits)
next
  case (Cons x evs)
  obtain ev line col where x: "x = (ev, line, col)" by (cases x) auto
  obtain st1 where s1: "(case ev of StartTag name att \<Rightarrow> StartElement trusted name att st
                                  | EndTag name \<Rightarrow> EndElement st) = Returns st1"
    and r: "parse_events trusted evs fin st1 = Returns st'"
    using Cons.prems(1) x by (auto split: outcome.splits)
  have "nodes st1 = nodes st \<or> (\<exists>i n. nodes st1 = map_insert i n (nodes st))"
    using s1 StartElement_nodes EndElement_nodes by (cases ev) auto
  then have "sorted (map fst (nodes st1)) \<and> map_of (nodes st1) k = Some v"
    using step_keeps_node Cons.prems(2,3) by blast
  then show ?case using Cons.IH [OF r] by simp
qed

lemma parse_events_sorted_nodes:
  "parse_events trusted evs fin st = Returns st' \<Longrightarrow>
   sorted (map fst (nodes st)) \<Longrightarrow> sorted (map fst (nodes st'))"
proof (induction evs arbitrary: st)
  case Nil
  then show ?case by (simp split: ending.splits)
next
  case (Cons x evs)
  obtain ev line col where x: "x = (ev, line, col)" by (cases x) auto
  obtain st1 where s1: "(case ev of StartTag name att \<Rightarrow> StartElement trusted name att st
                                  | EndTag name \<Rightarrow> EndElement st) = Returns st1"
    and r: "parse_events trusted evs fin st1 = Returns st'"
    using Cons.prems(1) x by (auto split: outcome.splits)
  have "nodes st1 = nodes st \<or> (\<exists>i n. nodes st1 = map_insert i n (nodes st))"
    using s1 StartElement_nodes EndElement_nodes by (cases ev) auto
  then have "sorted (map fst (nodes st1))"
    using map_insert_sorted Cons.prems(2) by fastforce
  then show ?case using Cons.IH [OF r] by simp
qed

lemma parse_events_append:
  "parse_events trusted (a @ b) fin st =
    (case parse_events trusted a EndOfInput st of
       Returns s \<Rightarrow> parse_events trusted b fin s
     | Throws e s \<Rightarrow> Throws e s
     | Undefined \<Rightarrow> Undefined)"
proof (induction a arbitrary: st)
  case Nil
  then show ?case by simp
next
  case (Cons x a)
  obtain ev line col where x: "x = (ev, line, col)" by (cases x) auto
  show ?case using Cons.IH by (simp add: x split: outcome.splits)
qed

lemma postprocess_nodes: "nodes (postprocess st) = nodes st"
  by (simp add: postprocess_def)

lemma Load_keeps_declared_node:
  assumes ev: "events src = pre @ (StartTag ''node'' att, pos) # post"
    and pre: "parse_events False pre EndOfInput
               (st\<lparr>bbox := Empty, InsideWhich := NONE, tag_level := 0\<rparr>) = Returns st1"
    and top: "at_top st1"
    and srt: "sorted (map fst (nodes st))" and new: "map_of (nodes st1) n = None"
    and att: "distinct (map fst att)" "map_of att ''id'' = Some s" "map_of att ''lat'' = Some la"
      "map_of att ''lon'' = Some lo" "ParseCoord la = Inr y" "ParseCoord lo = Inr x"
    and n: "int_of_long (strtol s) = n"
    and load: "Load False src st = Returns st'"
  shows "GetNode st' n = Inr \<lparr>Pos = (x, y)\<rparr>"
proof -
  let ?st0 = "st\<lparr>bbox := Empty, InsideWhich := NONE, tag_level := 0\<rparr>"
  obtain st3 where p: "parse_events False (events src) (ending src) ?st0 = Returns st3"
    and st': "st' = postprocess st3"
    using load by (auto simp: Load_def Let_def split: if_splits outcome.splits)
  let ?st2 = "st1\<lparr>InsideWhich := NODE,
                nodes := map_insert n \<lparr>Pos = (x, y)\<rparr> (nodes st1),
                last_node := Some n, tag_level := tag_level st1 + 1\<rparr>"
  obtain line col where pos: "pos = (line, col)" by (cases pos) auto
  have s: "StartElement False ''node'' att st1 = Returns ?st2"
    using StartElement_node_default [OF top att] n by simp
  have "parse_events False ((StartTag ''node'' att, pos) # post) (ending src) st1 = Returns st3"
    using p pre by (simp add: ev parse_events_append)
  then have rest: "parse_events False post (ending src) ?st2 = Returns st3"
    using s by (simp add: pos)
  have s1: "sorted (map fst (nodes st1))"
    using parse_events_sorted_nodes [OF pre] srt by simp
  then have "sorted (map fst (nodes ?st2))" by (simp add: map_insert_sorted)
  moreover have "map_of (nodes ?st2) n = Some \<lparr>Pos = (x, y)\<rparr>"
    using new by (simp add: map_of_map_insert_new)
  ultimately have "map_of (nodes st3) n = Some \<lparr>Pos = (x, y)\<rparr>"
    using parse_events_keeps_node [OF rest] by blast
  then show ?thesis by (simp add: st' GetNode_def postprocess_nodes)
qed

subsection \<open>Evaluations\<close>

text \<open>Values used by the witnesses.\<close>

lemma show_int_7: "show_int 7 = ''7''" by code_simp

lemma show_int_77: "show_int 77 = ''77''" by code_simp

lemma strtol_77: "int_of_long (strtol ''77'') = 77"
  by code_simp

subsection \<open>Further evaluations and lemmas\<close>

text \<open>Loads of the example inputs, and the general form of the two defects found.\<close>

lemma Load_two_nodes:
  "Load False two_nodes new_datasource =
   Returns \<lparr>nodes = [(1, \<lparr>Pos = (- 20000000, 15000000)\<rparr>), (2, \<lparr>Pos = (30000000, - 5000000)\<rparr>)],
            ways = [], relations = [],
            bbox = \<lparr>left = - 20000000, bottom = - 5000000, right = 30000000, top = 15000000\<rparr>,
            InsideWhich = NONE, tag_level = 0, last_node = Some 2, last_way = None,
            last_relation = None\<rparr>"
  by code_simp

lemma EndElement_empty_way:
  "in_way st w way \<Longrightarrow> Nodes way = [] \<Longrightarrow> EndElement st = Undefined"
  by (simp add: EndElement_def end_way_def)

lemma end_way_Closed_iff:
  assumes "Nodes way \<noteq> []" and "\<not> Closed way"
    and "map (map_of nds) (Nodes way) = map Some ns"
  shows "\<exists>way'. end_way nds w way = Returns way' \<and>
           (Closed way' \<longleftrightarrow> hd (Nodes way) = last (Nodes way))"
proof (cases "hd (Nodes way) = last (Nodes way)")
  case True
  then show ?thesis using end_way_closed [OF assms(1) True assms(3)] by simp
next
  case False
  then show ?thesis using end_way_open [OF assms(1) False assms(3)] assms(2) by simp
qed

lemma member_loop_bad_type:
  "(''type'', v) \<in> set att \<Longrightarrow> v \<notin> {''node'', ''way'', ''relation''} \<Longrightarrow>
   \<exists>m. member_loop False att l = Inl (ParsingException m)"
proof (induction att arbitrary: l)
  case Nil
  then show ?case by simp
next
  case (Cons x att)
  obtain n u where x: "x = (n, u)" by (cases x) auto
  obtain r ro ty where l: "l = (r, ro, ty)" by (cases l) auto
  show ?case
  proof (cases "(''type'', v) \<in> set att")
    case True
    then have "\<And>l'. \<exists>m. member_loop False att l' = Inl (ParsingException m)"
      using Cons.IH Cons.prems(2) by blast
    then show ?thesis by (simp add: x l StrEq_def)
  next
    case False
    then have "n = ''type''" and "u = v" using Cons.prems(1) x by auto
    then show ?thesis using Cons.prems(2) by (simp add: x l StrEq_def)
  qed
qed

lemma StartElement_member_bad_type:
  assumes "tag_level st = 2" and "InsideWhich st = RELATION"
    and "(''type'', v) \<in> set att" and "v \<notin> {''node'', ''way'', ''relation''}"
  shows "\<exists>m. StartElement False ''member'' att st = Throws (ParsingException m) st"
proof -
  obtain m where "member_loop False att (None, None, None) = Inl (ParsingException m)"
    using member_loop_bad_type [OF assms(3,4)] by blast
  then show ?thesis using assms(1,2) by (auto simp: StartElement_def StrEq_def)
qed

lemma StartElement_member_missing_attribute:
  assumes "tag_level st = 2" and "InsideWhich st = RELATION" and "distinct (map fst att)"
    and "set (map fst att) \<subset> {''ref'', ''type'', ''role''}"
    and "\<forall>v. (''type'', v) \<in> set att \<longrightarrow> v \<in> {''node'', ''way'', ''relation''}"
  shows "StartElement False ''member'' att st = Undefined"
proof -
  have sub: "set (map fst att) \<subseteq> {''ref'', ''type'', ''role''}" using assms(4) by blast
  have "''ref'' \<notin> set (map fst att) \<or> ''type'' \<notin> set (map fst att) \<or>
        ''role'' \<notin> set (map fst att)"
    using assms(4) by blast
  then have "map_of att ''ref'' = None \<or> map_of att ''type'' = None \<or> map_of att ''role'' = None"
    by (simp add: map_of_eq_None_iff)
  then show ?thesis
    using member_loop_default [OF assms(3) sub assms(5), of None None None] assms(1,2)
    by (auto simp: StartElement_def StrEq_def split: option.splits)
qed

lemma show_int_123: "show_int 123 = ''123''"
  by code_simp

lemma ParseCoord_examples: "ParseCoord ''1.5'' = Inr 15000000" "ParseCoord ''-2'' = Inr (- 20000000)"
  by code_simp+

lemma Load_one_node:
  "Load False (one_node ''123'') new_datasource =
   Returns \<lparr>nodes = [(123, \<lparr>Pos = (- 20000000, 15000000)\<rparr>)], ways = [], relations = [],
            bbox = \<lparr>left = - 20000000, bottom = 15000000, right = - 20000000, top = 15000000\<rparr>,
            InsideWhich = NONE, tag_level = 0, last_node = Some 123, last_way = None,
            last_relation = None\<rparr>"
  by code_simp

lemma digit_chars:
  "char_of (48 :: nat) = CHR ''0''" "char_of (49 :: nat) = CHR ''1''"
  "char_of (50 :: nat) = CHR ''2''" "char_of (51 :: nat) = CHR ''3''"
  "char_of (52 :: nat) = CHR ''4''" "char_of (53 :: nat) = CHR ''5''"
  "char_of (54 :: nat) = CHR ''6''" "char_of (55 :: nat) = CHR ''7''"
  "char_of (56 :: nat) = CHR ''8''" "char_of (57 :: nat) = CHR ''9''"
  by code_simp+

lemma show_int_huge: "show_int 99999999999999999999 = ''99999999999999999999''"
  by (simp add: show_int_def show_nat.simps digit_chars)

lemma key_4294967297: "int_of_long (strtol ''4294967297'') = 1"
  by code_simp

section \<open>The claims\<close>

subsection \<open>C1: a missing node reference fails at the end of the way\<close>

text \<open>
  C1 (as amended). First part: the handlers are at depth 2 inside way \<open>w\<close>, whose node
  ids are \<open>pre @ i # post\<close>; every id of \<open>pre\<close> is in the node map and \<open>i\<close> is not, so
  \<open>i\<close> is the first missing reference. Then \<^verbatim>\<open>EndElement\<close> throws, and what it throws is
  a ParsingException (the claim says DataError) whose message names the node id \<open>i\<close>
  and the way id \<open>w\<close>. Second part, not earlier: in any state at depth 2 inside a way,
  whatever the way holds so far and whatever the node map holds, the handler of an
  \<^verbatim>\<open>nd\<close> element whose first attribute is \<^verbatim>\<open>ref\<close> returns normally for every \<^verbatim>\<open>ref\<close>
  value: it appends the id read from the value to the way's node ids, raises the depth
  and changes nothing else; the node map is neither consulted nor changed.
\<close>

theorem C1_missing_node_fails_at_end_of_way:
  "(in_way st w way \<and> Nodes way = pre @ i # post \<and>
    (\<forall>j\<in>set pre. map_of (nodes st) j \<noteq> None) \<and> map_of (nodes st) i = None \<longrightarrow>
      (\<exists>st'. EndElement st =
         Throws (ParsingException (''node '' @ show_int i @ '' referenced by way '' @
                   show_int w @ '' was not found in this dump'')) st')) \<and>
   (in_way st2 w2 way2 \<longrightarrow>
      (\<exists>st'. StartElement trusted ''nd'' ((''ref'', v) # att) st2 = Returns st' \<and>
         st' = st2\<lparr>ways := map_modify w2
                       (\<lambda>way. way\<lparr>Nodes := Nodes way @ [int_of_long (strtol v)]\<rparr>) (ways st2),
                     tag_level := 3\<rparr> \<and>
         map_of (ways st') w2 = Some (way2\<lparr>Nodes := Nodes way2 @ [int_of_long (strtol v)]\<rparr>) \<and>
         nodes st' = nodes st2))"
proof (intro conjI impI)
  assume a: "in_way st w way \<and> Nodes way = pre @ i # post \<and>
    (\<forall>j\<in>set pre. map_of (nodes st) j \<noteq> None) \<and> map_of (nodes st) i = None"
  then obtain way' where "end_way (nodes st) w way = Throws (not_found i w) way'"
    using end_way_missing [of way pre i post "nodes st" w] by blast
  then show "\<exists>st'. EndElement st =
         Throws (ParsingException (''node '' @ show_int i @ '' referenced by way '' @
                   show_int w @ '' was not found in this dump'')) st'"
    using a by (simp add: EndElement_def not_found_def)
next
  assume a: "in_way st2 w2 way2"
  then have "StartElement trusted ''nd'' ((''ref'', v) # att) st2 =
      Returns (st2\<lparr>ways := map_modify w2
                       (\<lambda>way. way\<lparr>Nodes := Nodes way @ [int_of_long (strtol v)]\<rparr>) (ways st2),
                    tag_level := 3\<rparr>)"
    using StartElement_nd [of st2 w2 way2 trusted v att] by simp
  then show "\<exists>st'. StartElement trusted ''nd'' ((''ref'', v) # att) st2 = Returns st' \<and>
         st' = st2\<lparr>ways := map_modify w2
                       (\<lambda>way. way\<lparr>Nodes := Nodes way @ [int_of_long (strtol v)]\<rparr>) (ways st2),
                     tag_level := 3\<rparr> \<and>
         map_of (ways st') w2 = Some (way2\<lparr>Nodes := Nodes way2 @ [int_of_long (strtol v)]\<rparr>) \<and>
         nodes st' = nodes st2"
    using a by (simp add: map_of_map_modify)
qed

text \<open>
  C1, a witness, where nodes 1 to 4 are stored: way 7 with node ids 1, 2, 77, 1 fails at
  its end; and inside way 7 with node ids 1, 2, the \<^verbatim>\<open>nd\<close> element that brings the
  missing reference 77 is accepted and 77 is appended.
\<close>

theorem C1_missing_node_fails_at_end_of_way_witness:
  "(\<exists>st'. EndElement (square_state [1, 2, 77, 1]) =
      Throws (ParsingException ''node 77 referenced by way 7 was not found in this dump'') st') \<and>
   (\<exists>st'. StartElement False ''nd'' [(''ref'', ''77'')] (square_state [1, 2]) = Returns st' \<and>
      map_of (ways st') 7 = Some (new_Way\<lparr>Nodes := [1, 2, 77]\<rparr>) \<and>
      map_of (nodes st') 77 = None \<and> nodes st' = nodes (square_state [1, 2]))"
proof
  show "\<exists>st'. EndElement (square_state [1, 2, 77, 1]) =
      Throws (ParsingException ''node 77 referenced by way 7 was not found in this dump'') st'"
    using C1_missing_node_fails_at_end_of_way [where st = "square_state [1, 2, 77, 1]" and w = 7
        and way = "new_Way\<lparr>Nodes := [1, 2, 77, 1]\<rparr>" and pre = "[1, 2]" and i = 77
        and post = "[1]"]
    by (simp add: square_state_def new_datasource_def show_int_7 show_int_77)
  show "\<exists>st'. StartElement False ''nd'' [(''ref'', ''77'')] (square_state [1, 2]) = Returns st' \<and>
      map_of (ways st') 7 = Some (new_Way\<lparr>Nodes := [1, 2, 77]\<rparr>) \<and>
      map_of (nodes st') 77 = None \<and> nodes st' = nodes (square_state [1, 2])"
    using C1_missing_node_fails_at_end_of_way [where ?st2.0 = "square_state [1, 2]" and ?w2.0 = 7
        and ?way2.0 = "new_Way\<lparr>Nodes := [1, 2]\<rparr>" and trusted = False and v = "''77''"
        and att = "[]"]
    by (simp add: square_state_def new_datasource_def new_Way_def strtol_77)
qed

text \<open>
  C1, the claim as stated: a dump whose way 10 refers to the undeclared node 77. \<^verbatim>\<open>Load\<close>
  fails at the end tag of the way with a ParsingException, not with a DataException.
\<close>

theorem C1_counterexample:
  "thrown (Load False
     \<lparr>opens = True, parser_created = True,
      events = [(StartTag ''osm'' [], 1, 0),
                (StartTag ''way'' [(''id'', ''10'')], 2, 2),
                (StartTag ''nd'' [(''ref'', ''77'')], 3, 4),
                (EndTag ''nd'', 3, 4),
                (EndTag ''way'', 4, 2)],
      ending = EndOfInput\<rparr> new_datasource) =
   Some (ParsingException
     ''input parsing error: node 77 referenced by way 10 was not found in this dump at line 4 pos 2'')"
  by code_simp

subsection \<open>C2: the clockwise flag and the shoelace sum\<close>

text \<open>
  C2 (as amended). The handlers are at depth 2 inside way \<open>w\<close>, which is closed (its
  node ids are not empty and the first equals the last) and whose ids resolve to the
  nodes \<open>ns\<close>. If the shoelace sum over the positions of \<open>ns\<close> lies in the range of the
  signed 64-bit accumulator, then \<^verbatim>\<open>EndElement\<close> returns, the way is marked closed, and
  its clockwise flag is true iff the sum is strictly negative (so a sum of zero gives
  false).
\<close>

theorem C2_clockwise_iff_negative_sum:
  assumes "tag_level st = 2" and "InsideWhich st = WAY" and "last_way st = Some w"
    and "map_of (ways st) w = Some way"
    and "Nodes way \<noteq> []" and "hd (Nodes way) = last (Nodes way)"
    and "map (map_of (nodes st)) (Nodes way) = map Some ns"
    and "- (2 ^ 63) \<le> shoelace (map Pos ns)" and "shoelace (map Pos ns) < 2 ^ 63"
  shows "\<exists>st' way'. EndElement st = Returns st' \<and> map_of (ways st') w = Some way' \<and>
           Closed way' \<and> (Clockwise way' \<longleftrightarrow> shoelace (map Pos ns) < 0)"
proof -
  let ?way' = "way\<lparr>Closed := True, BBox := foldl Include (BBox way) (map Pos ns),
                 Clockwise := shoelace (map Pos ns) < 0\<rparr>"
  have "end_way (nodes st) w way = Returns ?way'"
    using end_way_closed [OF assms(5,6,7)] osmlong_id [OF assms(8,9)] by simp
  then have "EndElement st = Returns (st\<lparr>ways := map_modify w (\<lambda>_. ?way') (ways st),
                                   InsideWhich := NONE, tag_level := tag_level st - 1\<rparr>)"
    using assms(1-4) by (simp add: EndElement_def)
  moreover have "map_of (map_modify w (\<lambda>_. ?way') (ways st)) w = Some ?way'"
    using assms(4) by (simp add: map_of_map_modify)
  ultimately show ?thesis by simp
qed

text \<open>
  C2, a witness: the square (0,0), (10,0), (10,10), (0,10), (0,0), counter-clockwise
  in a Y-up frame, is not clockwise; its reverse traversal is.
\<close>

theorem C2_clockwise_iff_negative_sum_witness:
  "(\<exists>st' way'. EndElement (square_state [1, 2, 3, 4, 1]) = Returns st' \<and>
       map_of (ways st') 7 = Some way' \<and> Closed way' \<and> \<not> Clockwise way') \<and>
   (\<exists>st' way'. EndElement (square_state [1, 4, 3, 2, 1]) = Returns st' \<and>
       map_of (ways st') 7 = Some way' \<and> Closed way' \<and> Clockwise way')"
proof
  show "\<exists>st' way'. EndElement (square_state [1, 2, 3, 4, 1]) = Returns st' \<and>
       map_of (ways st') 7 = Some way' \<and> Closed way' \<and> \<not> Clockwise way'"
    using C2_clockwise_iff_negative_sum [of "square_state [1, 2, 3, 4, 1]" 7
        "new_Way\<lparr>Nodes := [1, 2, 3, 4, 1]\<rparr>"
        "[\<lparr>Pos = (0, 0)\<rparr>, \<lparr>Pos = (10, 0)\<rparr>, \<lparr>Pos = (10, 10)\<rparr>, \<lparr>Pos = (0, 10)\<rparr>, \<lparr>Pos = (0, 0)\<rparr>]"]
    by (simp add: square_state_def new_datasource_def)
  show "\<exists>st' way'. EndElement (square_state [1, 4, 3, 2, 1]) = Returns st' \<and>
       map_of (ways st') 7 = Some way' \<and> Closed way' \<and> Clockwise way'"
    using C2_clockwise_iff_negative_sum [of "square_state [1, 4, 3, 2, 1]" 7
        "new_Way\<lparr>Nodes := [1, 4, 3, 2, 1]\<rparr>"
        "[\<lparr>Pos = (0, 0)\<rparr>, \<lparr>Pos = (0, 10)\<rparr>, \<lparr>Pos = (10, 10)\<rparr>, \<lparr>Pos = (10, 0)\<rparr>, \<lparr>Pos = (0, 0)\<rparr>]"]
    by (simp add: square_state_def new_datasource_def)
qed

text \<open>
  C2, the claim as stated: the ring around the whole map, traversed counter-clockwise
  through (180, -90), (180, 90), (-180, 90), (-180, -90) in degrees. All references
  resolve and the shoelace sum is positive, 12960000000000000000, but it exceeds
  \<open>2^63\<close>: the accumulator wraps to a negative value and the way is marked clockwise.
\<close>

theorem C2_counterexample:
  "way_flags (Load False
     \<lparr>opens = True, parser_created = True,
      events = [(StartTag ''osm'' [], 1, 0),
                (StartTag ''node'' [(''id'', ''1''), (''lat'', ''-90''), (''lon'', ''180'')], 2, 2),
                (EndTag ''node'', 2, 2),
                (StartTag ''node'' [(''id'', ''2''), (''lat'', ''90''), (''lon'', ''180'')], 3, 2),
                (EndTag ''node'', 3, 2),
                (StartTag ''node'' [(''id'', ''3''), (''lat'', ''90''), (''lon'', ''-180'')], 4, 2),
                (EndTag ''node'', 4, 2),
                (StartTag ''node'' [(''id'', ''4''), (''lat'', ''-90''), (''lon'', ''-180'')], 5, 2),
                (EndTag ''node'', 5, 2),
                (StartTag ''way'' [(''id'', ''1'')], 6, 2),
                (StartTag ''nd'' [(''ref'', ''1'')], 7, 4), (EndTag ''nd'', 7, 4),
                (StartTag ''nd'' [(''ref'', ''2'')], 8, 4), (EndTag ''nd'', 8, 4),
                (StartTag ''nd'' [(''ref'', ''3'')], 9, 4), (EndTag ''nd'', 9, 4),
                (StartTag ''nd'' [(''ref'', ''4'')], 10, 4), (EndTag ''nd'', 10, 4),
                (StartTag ''nd'' [(''ref'', ''1'')], 11, 4), (EndTag ''nd'', 11, 4),
                (EndTag ''way'', 12, 2),
                (EndTag ''osm'', 13, 0)],
      ending = EndOfInput\<rparr> new_datasource) 1 = Some (True, True) \<and>
   0 < shoelace [(1800000000, - 900000000), (1800000000, 900000000),
                 (- 1800000000, 900000000), (- 1800000000, - 900000000),
                 (1800000000, - 900000000)]"
  by code_simp

subsection \<open>C3: the closed flag\<close>

text \<open>
  C3. The claim: after end-of-way processing a way is closed iff its node-id sequence
  is not empty and its first and last ids are equal; a way without node ids is not
  closed. The code compares \<^verbatim>\<open>Nodes.front()\<close> with \<^verbatim>\<open>Nodes.back()\<close> without testing
  for an empty vector: for a way without \<^verbatim>\<open>nd\<close> children the end tag runs into
  undefined behaviour instead of leaving the flag false.
\<close>

theorem C3_empty_way_is_undefined:
  "Load False
     \<lparr>opens = True, parser_created = True,
      events = [(StartTag ''osm'' [], 1, 0),
                (StartTag ''way'' [(''id'', ''1'')], 2, 2),
                (EndTag ''way'', 2, 2),
                (EndTag ''osm'', 3, 0)],
      ending = EndOfInput\<rparr> new_datasource = Undefined"
  by code_simp

subsection \<open>C4: the 180 bound of the coordinate codec\<close>

text \<open>
  C4 (as amended). The claim is that \<^verbatim>\<open>"180.0000001"\<close> fails. It does not: the test
  \<^verbatim>\<open>!haddot && value > 180\<close> looks at the digits before the dot only. What holds: an
  input whose leading run of digits (after an optional \<^verbatim>\<open>-\<close>) has a value above 180
  fails with the ParsingException "value too large", whatever follows; an input whose
  integer part is at most 180, followed by a dot and at most seven digits, decodes to
  the digits read as one number, padded to seven fractional digits.
\<close>

theorem C4_ParseCoord_bound_on_integer_part:
  "(list_all is_digit ds \<and> 180 < dec_value 0 ds \<longrightarrow>
      ParseCoord (ds @ rest) =
        Inl (ParsingException ''bad coordinate format (value too large)'') \<and>
      ParseCoord (CHR ''-'' # ds @ rest) =
        Inl (ParsingException ''bad coordinate format (value too large)''))
   \<and> (list_all is_digit ds \<and> dec_value 0 ds \<le> 180 \<and> list_all is_digit fs \<and> length fs \<le> 7 \<longrightarrow>
      ParseCoord (ds @ ''.'' @ fs) = Inr (dec_value 0 (ds @ fs) * 10 ^ (7 - length fs)) \<and>
      ParseCoord (CHR ''-'' # ds @ ''.'' @ fs) =
        Inr (- (dec_value 0 (ds @ fs) * 10 ^ (7 - length fs))))"
proof (intro conjI impI)
  assume a: "list_all is_digit ds \<and> 180 < dec_value 0 ds"
  then have l: "coord_loop (ds @ rest) 0 0 0 =
      Inl (ParsingException ''bad coordinate format (value too large)'')"
    using coord_loop_too_large [of ds 0 rest 0] by simp
  have ne: "ds \<noteq> []" using a by auto
  then obtain c r where ds: "ds = c # r" by (cases ds) auto
  then have "c \<noteq> CHR ''-''" using a not_minus_digit by auto
  then have "\<And>c' r'. ds @ rest = c' # r' \<Longrightarrow> c' \<noteq> CHR ''-''" using ds by simp
  then show "ParseCoord (ds @ rest) =
      Inl (ParsingException ''bad coordinate format (value too large)'')"
    using l by (simp add: ParseCoord_no_sign)
  show "ParseCoord (CHR ''-'' # ds @ rest) =
      Inl (ParsingException ''bad coordinate format (value too large)'')"
    using l by (simp add: ParseCoord_sign)
next
  assume a: "list_all is_digit ds \<and> dec_value 0 ds \<le> 180 \<and> list_all is_digit fs \<and> length fs \<le> 7"
  have "coord_loop (ds @ ''.'' @ fs) 0 0 0 = coord_loop (''.'' @ fs) (dec_value 0 ds) 0 0"
    using a coord_loop_int_part [of ds 0 "''.'' @ fs" 0] by simp
  also have "\<dots> = coord_loop fs (dec_value 0 ds) 0 (Suc 0)"
    by (simp add: is_digit_def)
  also have "\<dots> = Inr (dec_value (dec_value 0 ds) fs, length fs, Suc 0)"
    using a coord_loop_frac_part [of fs 0 "dec_value 0 ds"] by simp
  finally have l: "coord_loop (ds @ ''.'' @ fs) 0 0 0 = Inr (dec_value 0 (ds @ fs), length fs, Suc 0)"
    by (simp add: dec_value_append)
  have "\<And>c' r'. ds @ ''.'' @ fs = c' # r' \<Longrightarrow> c' \<noteq> CHR ''-''"
    using a not_minus_digit by (cases ds) auto
  then show "ParseCoord (ds @ ''.'' @ fs) = Inr (dec_value 0 (ds @ fs) * 10 ^ (7 - length fs))"
    using l by (simp add: ParseCoord_no_sign)
  show "ParseCoord (CHR ''-'' # ds @ ''.'' @ fs) =
      Inr (- (dec_value 0 (ds @ fs) * 10 ^ (7 - length fs)))"
    using l by (simp add: ParseCoord_sign)
qed

text \<open>
  C4, a witness: 181 and -181.5 fail, 180.0000001 and -180.0000001 decode.
\<close>

theorem C4_ParseCoord_bound_on_integer_part_witness:
  "ParseCoord ''181'' = Inl (ParsingException ''bad coordinate format (value too large)'') \<and>
   ParseCoord ''-181.5'' = Inl (ParsingException ''bad coordinate format (value too large)'') \<and>
   ParseCoord ''180.0000001'' = Inr 1800000001 \<and>
   ParseCoord ''-180.0000001'' = Inr (- 1800000001)"
  using C4_ParseCoord_bound_on_integer_part [of "''181''" "''''" "''''"]
        C4_ParseCoord_bound_on_integer_part [of "''181''" "''.5''" "''''"]
        C4_ParseCoord_bound_on_integer_part [of "''180''" "''''" "''0000001''"]
  by (simp add: is_digit_def digit_val_def)

text \<open>
  C4, the claim as stated: \<^verbatim>\<open>"180.0000001"\<close> is accepted.
\<close>

theorem C4_counterexample: "ParseCoord ''180.0000001'' = Inr 1800000001"
  by (simp add: ParseCoord_def is_digit_def digit_val_def)

subsection \<open>C5: identifiers\<close>




subsection \<open>C6: the dataset bounding box without a bounds element\<close>

text \<open>
  C6. If \<^verbatim>\<open>Load\<close> returns and the input has no \<^verbatim>\<open>bounds\<close> and no \<^verbatim>\<open>bound\<close> element
  (or the handlers leave the box equal to the empty sentinel), then the dataset
  bounding box is the fold of \<^verbatim>\<open>Include\<close> over the positions of all stored nodes, in the
  order of the node map, starting from the empty box.
\<close>

theorem C6_bbox_fallback:
  assumes "Load trusted src st = Returns st'"
    and "(\<forall>ev\<in>set (events src). \<forall>att.
            fst ev \<noteq> StartTag ''bounds'' att \<and> fst ev \<noteq> StartTag ''bound'' att) \<or>
         (\<exists>st1. parse_events trusted (events src) (ending src)
                  (st\<lparr>bbox := Empty, InsideWhich := NONE, tag_level := 0\<rparr>) = Returns st1 \<and>
                bbox st1 = Empty)"
  shows "GetBBox st' = foldl Include Empty (map (\<lambda>(i, n). Pos n) (nodes st'))"
proof -
  let ?st0 = "st\<lparr>bbox := Empty, InsideWhich := NONE, tag_level := 0\<rparr>"
  obtain st1 where p: "parse_events trusted (events src) (ending src) ?st0 = Returns st1"
    and st': "st' = postprocess st1"
    using assms(1) by (auto simp: Load_def Let_def split: if_splits outcome.splits)
  have "bbox st1 = Empty"
  proof -
    { assume "\<forall>ev\<in>set (events src). \<forall>att.
            fst ev \<noteq> StartTag ''bounds'' att \<and> fst ev \<noteq> StartTag ''bound'' att"
      then have "bbox st1 = bbox ?st0" using parse_events_bbox [OF p] by blast
      then have "bbox st1 = Empty" by simp }
    then show ?thesis using assms(2) p by auto
  qed
  then show ?thesis using st' by (simp add: postprocess_Empty GetBBox_def)
qed

text \<open>
  C6, a witness: the dump \<open>two_nodes\<close>, loaded into a new object.
\<close>

theorem C6_bbox_fallback_witness:
  "Load False two_nodes new_datasource =
     Returns \<lparr>nodes = [(1, \<lparr>Pos = (- 20000000, 15000000)\<rparr>), (2, \<lparr>Pos = (30000000, - 5000000)\<rparr>)],
            ways = [], relations = [],
            bbox = \<lparr>left = - 20000000, bottom = - 5000000, right = 30000000, top = 15000000\<rparr>,
            InsideWhich = NONE, tag_level = 0, last_node = Some 2, last_way = None,
            last_relation = None\<rparr> \<and>
   \<lparr>left = - 20000000, bottom = - 5000000, right = 30000000, top = 15000000\<rparr> =
     foldl Include Empty [(- 20000000, 15000000), (30000000, - 5000000)]"
  using C6_bbox_fallback [OF Load_two_nodes] Load_two_nodes
  by (simp add: two_nodes_def GetBBox_def)

subsection \<open>C7: a second dot in a coordinate\<close>

text \<open>
  C7 (as amended). A second dot is rejected when fewer than seven digits stand between
  the first dot and the second: the input then fails with a ParsingException (for the
  second dot, or earlier for another malformation). After the seventh fractional digit
  the loop stops and the rest of the input is not examined.
\<close>

theorem C7_ParseCoord_second_dot:
  assumes "CHR ''.'' \<notin> set pre" and "CHR ''.'' \<notin> set mid"
    and "length (filter is_digit mid) < 7"
  shows "\<exists>m. ParseCoord (pre @ ''.'' @ mid @ ''.'' @ rest) = Inl (ParsingException m)"
proof (cases "\<exists>r. pre = CHR ''-'' # r")
  case True
  then obtain r where r: "pre = CHR ''-'' # r" by blast
  then have "CHR ''.'' \<notin> set r" using assms(1) by simp
  then have "(\<exists>m. coord_loop (r @ ''.'' @ mid @ ''.'' @ rest) 0 0 0 = Inl (ParsingException m)) \<or>
         (\<exists>v f h. coord_loop (r @ ''.'' @ mid @ ''.'' @ rest) 0 0 0 = Inr (v, f, h) \<and> 1 < h)"
    using coord_loop_second_dot assms(2,3) by blast
  then show ?thesis unfolding r by (auto simp: ParseCoord_sign)
next
  case False
  then have ns: "\<And>c r. pre @ ''.'' @ mid @ ''.'' @ rest = c # r \<Longrightarrow> c \<noteq> CHR ''-''"
    by (cases pre) auto
  have "(\<exists>m. coord_loop (pre @ ''.'' @ mid @ ''.'' @ rest) 0 0 0 = Inl (ParsingException m)) \<or>
         (\<exists>v f h. coord_loop (pre @ ''.'' @ mid @ ''.'' @ rest) 0 0 0 = Inr (v, f, h) \<and> 1 < h)"
    using coord_loop_second_dot assms by blast
  then show ?thesis by (auto simp: ParseCoord_no_sign [OF ns])
qed

text \<open>
  C7, a witness: \<^verbatim>\<open>"12.34.5"\<close> fails.
\<close>

theorem C7_ParseCoord_second_dot_witness:
  "CHR ''.'' \<notin> set ''12'' \<and> CHR ''.'' \<notin> set ''34'' \<and> length (filter is_digit ''34'') < 7 \<and>
   (\<exists>m. ParseCoord ''12.34.5'' = Inl (ParsingException m))"
  using C7_ParseCoord_second_dot [of "''12''" "''34''" "''5''"]
  by (simp add: is_digit_def)

text \<open>
  C7, the claim as stated: with seven digits after the first dot, a second dot is
  never seen.
\<close>

theorem C7_counterexample: "ParseCoord ''1.1234567.5'' = Inr 11234567"
  by (simp add: ParseCoord_def is_digit_def digit_val_def)

subsection \<open>C8: the member element\<close>

text \<open>
  C8. The claim: a \<^verbatim>\<open>member\<close> element fails with a ParsingError when a required
  attribute is missing. The code has no such test: the locals \<^verbatim>\<open>ref\<close>, \<^verbatim>\<open>role\<close> and
  \<^verbatim>\<open>type\<close> are declared without a value, and a member without \<^verbatim>\<open>role\<close> is built from
  the uninitialised pointer. Here the element \<^verbatim>\<open><member type="node" ref="5"/>\<close> inside
  relation 9: no exception, undefined behaviour.
\<close>

theorem C8_member_without_role_is_undefined:
  "StartElement False ''member'' [(''type'', ''node''), (''ref'', ''5'')] relation_state = Undefined"
  by code_simp

subsection \<open>C9: Clear\<close>

text \<open>
  C9. \<^verbatim>\<open>Clear\<close> empties the three maps and changes nothing else: the bounding box, the
  container kind, the depth and the three iterators keep their values. The box is
  reset by \<^verbatim>\<open>Load\<close>, which does not depend on the box it finds, and resets it before
  anything else: a \<^verbatim>\<open>Load\<close> that cannot even open its file leaves the empty box.
\<close>

theorem C9_Clear_frame:
  "nodes (Clear st) = [] \<and> ways (Clear st) = [] \<and> relations (Clear st) = [] \<and>
   Clear st = st\<lparr>nodes := [], ways := [], relations := []\<rparr> \<and>
   GetBBox (Clear st) = GetBBox st \<and>
   InsideWhich (Clear st) = InsideWhich st \<and> tag_level (Clear st) = tag_level st \<and>
   last_node (Clear st) = last_node st \<and> last_way (Clear st) = last_way st \<and>
   last_relation (Clear st) = last_relation st \<and>
   Load trusted src (st\<lparr>bbox := b\<rparr>) = Load trusted src st \<and>
   Load trusted (src\<lparr>opens := False\<rparr>) st =
     Throws (SystemError ''cannot open input file'') (st\<lparr>bbox := Empty\<rparr>)"
  by (simp add: Clear_def GetBBox_def Load_def)

subsection \<open>C10: duplicate tag keys in a way\<close>

text \<open>
  C10. The handlers are at depth 2 inside way \<open>w\<close>. After any sequence of \<^verbatim>\<open>tag\<close>
  elements, the way's tag map gives for a key \<open>k\<close> the value it had before, if any, and
  otherwise the value of the first of these elements whose key is \<open>k\<close>: later elements
  with the same key change nothing. (\<^verbatim>\<open>TagsMap\<close> is declared in a header that is not
  among the sources; it is taken to be a \<^verbatim>\<open>std::map\<close>, whose \<^verbatim>\<open>insert\<close> keeps an
  existing entry.)
\<close>

theorem C10_first_tag_value_wins:
  assumes "tag_level st = 2" and "InsideWhich st = WAY" and "last_way st = Some w"
    and "map_of (ways st) w = Some way" and "sorted (map fst (Tags way))"
  shows "\<exists>st' way'.
           parse_events trusted (concat (map (\<lambda>(att, pos). element ''tag'' att pos) tags))
             EndOfInput st = Returns st' \<and>
           map_of (ways st') w = Some way' \<and>
           map_of (Tags way') k =
             (case map_of (Tags way) k of
                Some y \<Rightarrow> Some y
              | None \<Rightarrow> map_option (tag_value trusted)
                         (find (\<lambda>att. tag_key trusted att = k) (map fst tags)))"
proof -
  obtain st' where "parse_events trusted (concat (map (\<lambda>(att, pos). element ''tag'' att pos) tags))
                  EndOfInput st = Returns st'"
    and "map_of (ways st') w =
             Some (way\<lparr>Tags := foldl (ParseTag trusted) (Tags way) (map fst tags)\<rparr>)"
    using tags_in_way [OF assms(1-4)] by blast
  then show ?thesis using map_of_foldl_ParseTag [OF assms(5)] by simp
qed

text \<open>
  C10, a witness: two \<^verbatim>\<open>tag\<close> elements with the key \<^verbatim>\<open>name\<close>.
\<close>

theorem C10_first_tag_value_wins_witness:
  "\<exists>st' way'.
     parse_events False
       (element ''tag'' [(''k'', ''name''), (''v'', ''first'')] (5, 4) @
        element ''tag'' [(''k'', ''name''), (''v'', ''second'')] (6, 4))
       EndOfInput (square_state [1, 2]) = Returns st' \<and>
     map_of (ways st') 7 = Some way' \<and>
     map_of (Tags way') ''name'' = Some ''first''"
  using C10_first_tag_value_wins [of "square_state [1, 2]" 7 "new_Way\<lparr>Nodes := [1, 2]\<rparr>" False
    "[([(''k'', ''name''), (''v'', ''first'')], (5, 4)), ([(''k'', ''name''), (''v'', ''second'')], (6, 4))]"
    "''name''"]
  by (simp add: square_state_def new_datasource_def new_Way_def tag_key_def tag_value_def StrEq_def)

end
